theory Spec2Isabelle
  imports Complex_Main "HOL-Library.Word" "HOL-Library.List_Lexorder" "HOL-Library.Sublist"
begin

section \<open>Strings of the worker\<close>

text \<open>
  The worker is JavaScript: a string is a sequence of UTF-16 code units, and \<open>length\<close>,
  \<open>substring\<close>, \<open>trim\<close> and the two regular expressions of \<open>cleanText\<close> (neither
  carries the \<open>u\<close> flag) all work on code units. A code unit is a 16-bit word.
  \<open>js\<close> turns an Isabelle literal into such a string, so that examples stay readable.
\<close>

type_synonym code_unit = "16 word"
type_synonym jsstring = "code_unit list"

definition js :: "string \<Rightarrow> jsstring" where
  "js s = map (\<lambda>c. of_nat (of_char c)) s"

text \<open>
  White space of ECMAScript (\<open>WhiteSpace\<close> and \<open>LineTerminator\<close>): the set that
  \<open>String.prototype.trim\<close> strips and that \<open>\s\<close> matches in a regular expression.
\<close>

definition isWhiteSpace :: "code_unit \<Rightarrow> bool" where
  "isWhiteSpace c \<longleftrightarrow>
     c = 0x0009 \<or> c = 0x000A \<or> c = 0x000B \<or> c = 0x000C \<or> c = 0x000D \<or> c = 0x0020 \<or>
     c = 0x00A0 \<or> c = 0x1680 \<or> (0x2000 \<le> c \<and> c \<le> 0x200A) \<or> c = 0x2028 \<or>
     c = 0x2029 \<or> c = 0x202F \<or> c = 0x205F \<or> c = 0x3000 \<or> c = 0xFEFF"

definition trim :: "jsstring \<Rightarrow> jsstring" where
  "trim s = rev (dropWhile isWhiteSpace (rev (dropWhile isWhiteSpace s)))"

text \<open>\<open>s.substring(0, n)\<close>: the first \<open>n\<close> code units, the whole string when it is shorter.\<close>

definition substring0 :: "nat \<Rightarrow> jsstring \<Rightarrow> jsstring" where
  "substring0 n s = take n s"

subsection \<open>cleanText\<close>

abbreviation LT :: code_unit where "LT \<equiv> 0x3C"
abbreviation GT :: code_unit where "GT \<equiv> 0x3E"

text \<open>
  \<open>.replace(/<[^>]+>/g, '')\<close>. The scan goes left to right. At a \<open><\<close> the greedy class
  \<open>[^>]+\<close> takes every code unit up to the next \<open>>\<close> (further \<open><\<close> and line breaks
  included); the match succeeds when that run is not empty and a \<open>>\<close> does follow it, the
  whole match is dropped and the scan goes on behind the \<open>>\<close>. Otherwise no shorter run
  can match either, the \<open><\<close> stays and the scan moves one code unit on.
\<close>

function stripTags :: "jsstring \<Rightarrow> jsstring" where
  "stripTags [] = []"
| "stripTags (c # cs) =
     (if c = LT \<and> takeWhile (\<lambda>x. x \<noteq> GT) cs \<noteq> [] \<and> dropWhile (\<lambda>x. x \<noteq> GT) cs \<noteq> []
      then stripTags (tl (dropWhile (\<lambda>x. x \<noteq> GT) cs))
      else c # stripTags cs)"
  by pat_completeness auto
termination
proof (relation "measure length")
  fix c :: code_unit and cs :: jsstring
  have "length (tl (dropWhile (\<lambda>x. x \<noteq> GT) cs)) \<le> length cs"
    using length_dropWhile_le [of "\<lambda>x. x \<noteq> GT" cs] by simp
  then show "(tl (dropWhile (\<lambda>x. x \<noteq> GT) cs), c # cs) \<in> measure length"
    by simp
qed simp_all

text \<open>The class \<open>[a-zA-Z0-9\s.,!?]\<close>; \<open>.replace(/[^a-zA-Z0-9\s.,!?]/g, '')\<close> keeps its members.\<close>

definition isAllowed :: "code_unit \<Rightarrow> bool" where
  "isAllowed c \<longleftrightarrow>
     (0x61 \<le> c \<and> c \<le> 0x7A) \<or> (0x41 \<le> c \<and> c \<le> 0x5A) \<or> (0x30 \<le> c \<and> c \<le> 0x39) \<or>
     isWhiteSpace c \<or> c = 0x2E \<or> c = 0x2C \<or> c = 0x21 \<or> c = 0x3F"

definition removeSpecial :: "jsstring \<Rightarrow> jsstring" where
  "removeSpecial s = filter isAllowed s"

definition cleanText :: "jsstring \<Rightarrow> jsstring" where
  "cleanText text = substring0 1000 (trim (removeSpecial (stripTags text)))"


subsection \<open>Numbers and their decimal rendering\<close>

text \<open>
  A JavaScript number is an IEEE double. The model keeps the exact value of a double, a
  rational, and \<open>NaN\<close> is the separate value \<open>JNaN\<close>. \<open>toFixed\<close> works on that exact
  value, as ECMAScript defines it. The operations that round their result to a double
  are not defined here: the worker's division and multiplication and the \<open>AVG\<close> of
  SQLite are functions of the runtime the worker runs on, which is a parameter of the
  model, and so is \<open>toLowerCase\<close> beyond ASCII. A number in a JSON text is the decimal
  literal written there. A JSON value that the worker reads or writes where its kind
  matters is a \<open>jsval\<close>.
\<close>

datatype jsval = JNum rat | JStr jsstring | JNaN

record runtime =
  lowerCase :: "jsstring \<Rightarrow> jsstring"
  fdiv :: "rat \<Rightarrow> rat \<Rightarrow> rat"
  fmul :: "rat \<Rightarrow> rat \<Rightarrow> rat"
  sqlAvg :: "rat list \<Rightarrow> rat"

definition digit :: "nat \<Rightarrow> code_unit" where
  "digit n = of_nat (48 + n)"

fun decimal :: "nat \<Rightarrow> jsstring" where
  "decimal n = (if n < 10 then [digit n] else decimal (n div 10) @ [digit (n mod 10)])"

declare decimal.simps [simp del]

text \<open>
  \<open>Number.prototype.toFixed(f)\<close> for a number below \<open>10^21\<close> in magnitude (above it
  JavaScript switches to exponent notation; the worker never gets there with a
  percentage). \<open>n\<close> is the integer for which \<open>n / 10^f\<close> is closest to the magnitude of
  \<open>x\<close>, the larger one on a tie; its digits are padded with zeros to at least \<open>f + 1\<close>
  and the point is set before the last \<open>f\<close>; a negative \<open>x\<close> gets a minus sign.
\<close>

definition toFixed :: "nat \<Rightarrow> rat \<Rightarrow> jsstring" where
  "toFixed f x =
     (let s = (if x < 0 then [0x2D] else []);
          n = nat \<lfloor>\<bar>x\<bar> * 10 ^ f + 1 / 2\<rfloor>;
          m = decimal n;
          m1 = replicate (f + 1 - length m) 0x30 @ m;
          k = length m1
      in if f = 0 then s @ m
         else s @ take (k - f) m1 @ [0x2E] @ drop (k - f) m1)"

definition isDigit :: "code_unit \<Rightarrow> bool" where
  "isDigit c \<longleftrightarrow> 0x30 \<le> c \<and> c \<le> 0x39"

definition digitsVal :: "jsstring \<Rightarrow> nat" where
  "digitsVal ds = foldl (\<lambda>acc c. 10 * acc + (unat c - 48)) 0 ds"

text \<open>
  \<open>parseFloat\<close> on the decimal literals \<open>toFixed\<close> writes: leading white space, a sign,
  digits, a point and digits; what follows is ignored, and a string with no digit is
  \<open>NaN\<close>. The exponent part and \<open>Infinity\<close> are not read: \<open>toFixed\<close> writes neither.
\<close>

definition parseFloat :: "jsstring \<Rightarrow> jsval" where
  "parseFloat s =
     (let t = dropWhile isWhiteSpace s;
          neg = (t \<noteq> [] \<and> hd t = 0x2D);
          u = (if t \<noteq> [] \<and> (hd t = 0x2D \<or> hd t = 0x2B) then tl t else t);
          ip = takeWhile isDigit u;
          r = dropWhile isDigit u;
          fp = (if r \<noteq> [] \<and> hd r = 0x2E then takeWhile isDigit (tl r) else [])
      in if ip = [] \<and> fp = [] then JNaN
         else JNum ((if neg then - 1 else 1) *
                (of_nat (digitsVal ip) + of_nat (digitsVal fp) / 10 ^ length fp)))"

text \<open>
  \<open>String.prototype.toLowerCase\<close>. On a string of ASCII code units it lowers the
  letters \<open>A\<close> to \<open>Z\<close> and leaves the rest; on any other string the result is that of
  the runtime, which follows the case mappings of Unicode.
\<close>

definition toLowerCase :: "runtime \<Rightarrow> jsstring \<Rightarrow> jsstring" where
  "toLowerCase rt s =
     (if list_all (\<lambda>c. c < 0x80) s
      then map (\<lambda>c. if 0x41 \<le> c \<and> c \<le> 0x5A then c + 0x20 else c) s
      else lowerCase rt s)"


section \<open>The store\<close>

text \<open>
  The D1 database holds the two tables of \<open>schema.sql\<close>. Text the worker binds is kept
  as the string it bound. A movie title is kept as its sequence of Unicode code points:
  \<open>ORDER BY title\<close> compares UTF-8 bytes, which orders texts as their code points, and
  \<open>LIKE\<close> matches character by character.

  \<open>created_at\<close> is \<open>CURRENT_TIMESTAMP\<close>: UTC, to the second, kept here as seconds since
  the epoch. SQLite writes it \<open>YYYY-MM-DD HH:MM:SS\<close>, so that comparing two of them as
  text is comparing the instants, and \<open>DATE(created_at)\<close> is the day they fall on, kept
  here as the number of that day.
\<close>

type_synonym sqltext = "nat list"
type_synonym timestamp = nat

definition DATE :: "timestamp \<Rightarrow> int" where
  "DATE t = int (t div 86400)"

record movie =
  m_id :: jsstring
  title :: sqltext
  year :: "int option"
  poster_url :: "jsstring option"

record review =
  r_id :: nat
  movie_id :: jsstring
  review_text :: jsstring
  sentiment :: jsstring
  confidence :: rat
  created_at :: timestamp

text \<open>
  \<open>seq\<close> is the counter behind \<open>AUTOINCREMENT\<close>: the largest review id handed out.
\<close>

record db =
  movies :: "movie list"
  reviews :: "review list"
  seq :: nat

text \<open>\<open>SELECT ... FROM movies WHERE id = ?\<close> with \<open>.first()\<close>.\<close>

definition findMovie :: "db \<Rightarrow> jsstring \<Rightarrow> movie option" where
  "findMovie d mid = find (\<lambda>m. m_id m = mid) (movies d)"

text \<open>
  The \<open>INSERT\<close> of a review: the row gets the next id and the current time, and
  \<open>meta.last_row_id\<close> is that id.
\<close>

definition insertReview ::
  "db \<Rightarrow> timestamp \<Rightarrow> jsstring \<Rightarrow> jsstring \<Rightarrow> jsstring \<Rightarrow> rat \<Rightarrow> nat \<times> db" where
  "insertReview d now mid txt sent conf =
     (let rid = Suc (seq d);
          row = \<lparr>r_id = rid, movie_id = mid, review_text = txt, sentiment = sent,
                 confidence = conf, created_at = now\<rparr>
      in (rid, d\<lparr>reviews := reviews d @ [row], seq := rid\<rparr>))"

subsection \<open>The aggregate query\<close>

text \<open>
  One row always comes back. \<open>COUNT(*)\<close> is 0 over no rows, while \<open>SUM\<close> and \<open>AVG\<close>
  are \<open>NULL\<close> there. Over rows, \<open>AVG(confidence)\<close> is what the floating-point summation
  and division of SQLite make of the confidences, in the order of the rows.
\<close>

record stats_row =
  total_reviews :: int
  positive_count :: "int option"
  negative_count :: "int option"
  avg_confidence :: "rat option"

definition reviewsOf :: "db \<Rightarrow> jsstring \<Rightarrow> review list" where
  "reviewsOf d mid = filter (\<lambda>r. movie_id r = mid) (reviews d)"

definition countSentiment :: "jsstring \<Rightarrow> review list \<Rightarrow> int" where
  "countSentiment v rows = int (length (filter (\<lambda>r. sentiment r = v) rows))"

definition aggregateStats :: "runtime \<Rightarrow> db \<Rightarrow> jsstring \<Rightarrow> stats_row" where
  "aggregateStats rt d mid =
     (let rows = reviewsOf d mid
      in \<lparr>total_reviews = int (length rows),
          positive_count = (if rows = [] then None else Some (countSentiment (js ''positive'') rows)),
          negative_count = (if rows = [] then None else Some (countSentiment (js ''negative'') rows)),
          avg_confidence =
            (if rows = [] then None else Some (sqlAvg rt (map confidence rows)))\<rparr>)"

subsection \<open>Recent reviews and the trend\<close>

text \<open>
  \<open>ORDER BY created_at DESC LIMIT 10\<close>: the latest timestamp first; rows with one
  timestamp stay in the order of their insertion.
\<close>

definition recentReviews :: "db \<Rightarrow> jsstring \<Rightarrow> review list" where
  "recentReviews d mid =
     take 10 (sort_key (\<lambda>r. - int (created_at r)) (reviewsOf d mid))"

text \<open>
  The trend query. \<open>date('now', '-30 days')\<close> is the text \<open>YYYY-MM-DD\<close> of the day 30
  days before today, and \<open>created_at >= \<dots>\<close> compares texts: a timestamp is at least
  that text exactly when its day is that day or a later one. The rows that pass are
  grouped by their day, one result row per group, latest day first.
\<close>

record trend_row =
  date :: int
  positive :: int
  negative :: int

definition inWindow :: "timestamp \<Rightarrow> review \<Rightarrow> bool" where
  "inWindow now r \<longleftrightarrow> DATE now - 30 \<le> DATE (created_at r)"

definition trendRows :: "db \<Rightarrow> timestamp \<Rightarrow> jsstring \<Rightarrow> review list" where
  "trendRows d now mid = filter (inWindow now) (reviewsOf d mid)"

definition onDate :: "int \<Rightarrow> review list \<Rightarrow> review list" where
  "onDate dt rows = filter (\<lambda>r. DATE (created_at r) = dt) rows"

definition trend :: "db \<Rightarrow> timestamp \<Rightarrow> jsstring \<Rightarrow> trend_row list" where
  "trend d now mid =
     (let rows = trendRows d now mid;
          dates = rev (sort (remdups (map (\<lambda>r. DATE (created_at r)) rows)))
      in map (\<lambda>dt. \<lparr>date = dt,
                     positive = countSentiment (js ''positive'') (onDate dt rows),
                     negative = countSentiment (js ''negative'') (onDate dt rows)\<rparr>) dates)"

subsection \<open>The catalog search\<close>

text \<open>
  \<open>LIKE\<close> of SQLite, as the query uses it (no \<open>ESCAPE\<close>): in the pattern \<open>%\<close> stands
  for any run of characters, \<open>_\<close> for any one character, and every other character
  for itself, where the ASCII letters match without regard to case.
\<close>

definition foldAscii :: "nat \<Rightarrow> nat" where
  "foldAscii c = (if 65 \<le> c \<and> c \<le> 90 then c + 32 else c)"

fun like :: "sqltext \<Rightarrow> sqltext \<Rightarrow> bool" where
  "like [] t = (t = [])"
| "like (p # ps) [] = (p = 37 \<and> like ps [])"
| "like (p # ps) (c # cs) =
     (if p = 37 then like ps (c # cs) \<or> like (p # ps) cs
      else (p = 95 \<or> foldAscii p = foldAscii c) \<and> like ps cs)"

text \<open>The pattern the worker binds: \<open>`%${searchQuery}%`\<close>.\<close>

definition likePattern :: "sqltext \<Rightarrow> sqltext" where
  "likePattern qs = 37 # qs @ [37]"

text \<open>
  D1 sets the limit of SQLite on the length of a \<open>LIKE\<close> pattern to 50 bytes. The
  pattern is bound as UTF-8, and \<open>LIKE\<close> measures it when it is applied to a row: over a
  longer pattern it raises \<open>LIKE or GLOB pattern too complex\<close> and the statement fails.
\<close>

definition utf8Length :: "sqltext \<Rightarrow> nat" where
  "utf8Length t =
     sum_list (map (\<lambda>c. if c < 128 then 1 else if c < 2048 then 2
                        else if c < 65536 then 3 else 4) t)"

definition likeLimit :: nat where
  "likeLimit = 50"

datatype d1_error = LikePatternTooComplex

definition searchMovies :: "db \<Rightarrow> sqltext option \<Rightarrow> d1_error + movie list" where
  "searchMovies d searchQuery =
     (case searchQuery of
        None \<Rightarrow> Inr (take 50 (sort_key title (movies d)))
      | Some qs \<Rightarrow>
          if qs = [] then Inr (take 50 (sort_key title (movies d)))
          else if movies d \<noteq> [] \<and> likeLimit < utf8Length (likePattern qs)
          then Inl LikePatternTooComplex
          else Inr (take 20 (sort_key title
                 (filter (\<lambda>m. like (likePattern qs) (title m)) (movies d)))))"


section \<open>The worker\<close>

subsection \<open>Requests and responses\<close>

text \<open>
  A request body is typed as the worker declares it, \<open>{movieId, text, sentiment,
  confidence}\<close> (\<open>/api/predict\<close> reads \<open>text\<close> alone), each field present or absent.
  \<open>req_body\<close> is \<open>None\<close> when the body is not JSON and \<open>request.json()\<close> throws.
  \<open>req_q\<close> is \<open>url.searchParams.get('q')\<close>, \<open>None\<close> for \<open>null\<close>.
\<close>

record json_body =
  b_movieId :: "jsstring option"
  b_text :: "jsstring option"
  b_sentiment :: "jsstring option"
  b_confidence :: "rat option"

record request =
  req_method :: jsstring
  req_path :: jsstring
  req_q :: "sqltext option"
  req_body :: "json_body option"

text \<open>
  The classifier, \<open>env.AI.run\<close>, is a parameter of the worker: it throws, or returns an
  array of items whose \<open>label\<close> and \<open>score\<close> may be missing.
\<close>

record ai_item =
  label :: "jsstring option"
  score :: "rat option"

datatype ai_result = AIThrows jsstring | AIReturns "ai_item list"

text \<open>
  What the worker is given: the bindings \<open>DB\<close> and \<open>AI\<close> of its \<open>Env\<close>, and the
  runtime it runs on.
\<close>

record env =
  DB :: db
  AI :: "jsstring \<Rightarrow> ai_result"
  RT :: runtime

text \<open>What is thrown inside the \<open>try\<close> block and answered with 500 by the \<open>catch\<close>.\<close>

datatype failure =
    BodyNotJson
  | ClassifierThrew jsstring
  | ClassifierResultUnreadable
  | BindUndefined
  | QueryFailed d1_error

record stats_json =
  totalReviews :: int
  positiveCount :: int
  negativeCount :: int
  positivePercentage :: jsval
  averageConfidence :: jsval

record movie_json =
  mj_id :: jsstring
  mj_title :: sqltext
  mj_year :: "int option"

record recent_json =
  rr_text :: jsstring
  rr_sentiment :: jsstring
  rr_confidence :: rat
  rr_date :: timestamp

datatype json =
    ErrorJson jsstring
  | InternalErrorJson failure
  | PredictionJson jsstring jsstring jsval jsstring
  | SavedJson nat
  | SentimentJson movie_json stats_json "recent_json list" "trend_row list"
  | MoviesJson "movie list" nat
  | HealthJson timestamp
  | NoBody

record response =
  status :: nat
  payload :: json

text \<open>
  What one call of \<open>fetch\<close> leaves behind: the response, the store, and the texts it
  passed to the classifier.
\<close>

record outcome =
  resp :: response
  store :: db
  aiCalls :: "jsstring list"

definition jsonResponse :: "json \<Rightarrow> nat \<Rightarrow> response" where
  "jsonResponse data st = \<lparr>status = st, payload = data\<rparr>"

definition internalError :: "failure \<Rightarrow> response" where
  "internalError e = jsonResponse (InternalErrorJson e) 500"

text \<open>\<open>!v\<close> for a string field: true when the field is absent or the empty string.\<close>

definition falsy :: "jsstring option \<Rightarrow> bool" where
  "falsy v \<longleftrightarrow> (case v of None \<Rightarrow> True | Some s \<Rightarrow> s = [])"

subsection \<open>POST /api/predict\<close>

definition predict :: "env \<Rightarrow> json_body \<Rightarrow> outcome" where
  "predict e body =
     (if falsy (b_text body) \<or> length (trim (the (b_text body))) = 0
      then \<lparr>resp = jsonResponse (ErrorJson (js ''Text is required'')) 400,
             store = DB e, aiCalls = []\<rparr>
      else
        let cleanedText = cleanText (the (b_text body));
            answer =
              (case AI e cleanedText of
                 AIThrows msg \<Rightarrow> internalError (ClassifierThrew msg)
               | AIReturns [] \<Rightarrow> internalError ClassifierResultUnreadable
               | AIReturns (item # _) \<Rightarrow>
                   (case label item of
                      None \<Rightarrow> internalError ClassifierResultUnreadable
                    | Some l \<Rightarrow>
                        (case score item of
                           None \<Rightarrow> internalError ClassifierResultUnreadable
                         | Some sc \<Rightarrow>
                             jsonResponse
                               (PredictionJson (the (b_text body)) (toLowerCase (RT e) l)
                                  (parseFloat (toFixed 4 sc)) (js ''distilbert-sst-2''))
                               200)))
        in \<lparr>resp = answer, store = DB e, aiCalls = [cleanedText]\<rparr>)"

subsection \<open>POST /api/reviews\<close>

text \<open>
  The three fields the worker tests, the lookup of the movie, the insert. An absent
  \<open>confidence\<close> reaches \<open>bind\<close> as \<open>undefined\<close>, which D1 refuses (and the column is
  \<open>NOT NULL\<close>): the statement throws and nothing is inserted.
\<close>

definition saveReview :: "env \<Rightarrow> timestamp \<Rightarrow> json_body \<Rightarrow> outcome" where
  "saveReview e now body =
     (if falsy (b_movieId body) \<or> falsy (b_text body) \<or> falsy (b_sentiment body)
      then \<lparr>resp = jsonResponse (ErrorJson (js ''Missing required fields'')) 400,
             store = DB e, aiCalls = []\<rparr>
      else
        (case findMovie (DB e) (the (b_movieId body)) of
           None \<Rightarrow> \<lparr>resp = jsonResponse (ErrorJson (js ''Movie not found'')) 404,
                     store = DB e, aiCalls = []\<rparr>
         | Some _ \<Rightarrow>
             (case b_confidence body of
                None \<Rightarrow> \<lparr>resp = internalError BindUndefined, store = DB e, aiCalls = []\<rparr>
              | Some conf \<Rightarrow>
                  let (rid, d') =
                        insertReview (DB e) now (the (b_movieId body))
                          (substring0 1000 (the (b_text body))) (the (b_sentiment body)) conf
                  in \<lparr>resp = jsonResponse (SavedJson rid) 201, store = d', aiCalls = []\<rparr>)))"

subsection \<open>GET /api/movies/:movieId/sentiment\<close>

text \<open>\<open>v || 0\<close> and the number a \<open>NULL\<close> column stands for in arithmetic.\<close>

definition orZero :: "int option \<Rightarrow> int" where
  "orZero v = (case v of None \<Rightarrow> 0 | Some n \<Rightarrow> n)"

definition statsJson :: "runtime \<Rightarrow> stats_row \<Rightarrow> stats_json" where
  "statsJson rt st =
     \<lparr>totalReviews = total_reviews st,
      positiveCount = orZero (positive_count st),
      negativeCount = orZero (negative_count st),
      positivePercentage =
        (if total_reviews st \<noteq> 0
         then JStr (toFixed 1
                (fmul rt (fdiv rt (of_int (orZero (positive_count st)))
                   (of_int (total_reviews st))) 100))
         else JNum 0),
      averageConfidence =
        (case avg_confidence st of
           None \<Rightarrow> JNum 0
         | Some a \<Rightarrow> if a \<noteq> 0 then parseFloat (toFixed 3 a) else JNum 0)\<rparr>"

definition recentJson :: "review \<Rightarrow> recent_json" where
  "recentJson r =
     \<lparr>rr_text = review_text r, rr_sentiment = sentiment r,
      rr_confidence = confidence r, rr_date = created_at r\<rparr>"

definition movieSentiment :: "env \<Rightarrow> timestamp \<Rightarrow> jsstring \<Rightarrow> outcome" where
  "movieSentiment e now movieId =
     (case findMovie (DB e) movieId of
        None \<Rightarrow> \<lparr>resp = jsonResponse (ErrorJson (js ''Movie not found'')) 404,
                  store = DB e, aiCalls = []\<rparr>
      | Some m \<Rightarrow>
          \<lparr>resp = jsonResponse
                    (SentimentJson \<lparr>mj_id = m_id m, mj_title = title m, mj_year = year m\<rparr>
                       (statsJson (RT e) (aggregateStats (RT e) (DB e) movieId))
                       (map recentJson (recentReviews (DB e) movieId))
                       (trend (DB e) now movieId))
                    200,
            store = DB e, aiCalls = []\<rparr>)"

subsection \<open>GET /api/movies\<close>

definition listMovies :: "env \<Rightarrow> sqltext option \<Rightarrow> outcome" where
  "listMovies e searchQuery =
     (case searchMovies (DB e) searchQuery of
        Inl err \<Rightarrow> \<lparr>resp = internalError (QueryFailed err), store = DB e, aiCalls = []\<rparr>
      | Inr results \<Rightarrow>
          \<lparr>resp = jsonResponse (MoviesJson results (length results)) 200,
           store = DB e, aiCalls = []\<rparr>)"

subsection \<open>The router\<close>

text \<open>
  \<open>path.match(/^\/api\/movies\/[^\/]+\/sentiment$/)\<close> and \<open>path.split('/')[3]\<close>: the
  segment between \<open>/api/movies/\<close> and \<open>/sentiment\<close>, not empty and free of \<open>/\<close>.
\<close>

definition sentimentPath :: "jsstring \<Rightarrow> jsstring option" where
  "sentimentPath p =
     (let pre = js ''/api/movies/'';
          rest = drop (length pre) p;
          seg = takeWhile (\<lambda>c. c \<noteq> 0x2F) rest
      in if take (length pre) p = pre \<and> seg \<noteq> [] \<and>
            dropWhile (\<lambda>c. c \<noteq> 0x2F) rest = js ''/sentiment''
         then Some seg else None)"

definition fetch :: "env \<Rightarrow> timestamp \<Rightarrow> request \<Rightarrow> outcome" where
  "fetch e now r =
     (if req_method r = js ''OPTIONS''
      then \<lparr>resp = \<lparr>status = 200, payload = NoBody\<rparr>, store = DB e, aiCalls = []\<rparr>
      else if req_path r = js ''/api/predict'' \<and> req_method r = js ''POST''
      then (case req_body r of
              None \<Rightarrow> \<lparr>resp = internalError BodyNotJson, store = DB e, aiCalls = []\<rparr>
            | Some body \<Rightarrow> predict e body)
      else if req_path r = js ''/api/reviews'' \<and> req_method r = js ''POST''
      then (case req_body r of
              None \<Rightarrow> \<lparr>resp = internalError BodyNotJson, store = DB e, aiCalls = []\<rparr>
            | Some body \<Rightarrow> saveReview e now body)
      else if sentimentPath (req_path r) \<noteq> None \<and> req_method r = js ''GET''
      then movieSentiment e now (the (sentimentPath (req_path r)))
      else if req_path r = js ''/api/movies'' \<and> req_method r = js ''GET''
      then listMovies e (req_q r)
      else if req_path r = js ''/api/health'' \<and> req_method r = js ''GET''
      then \<lparr>resp = jsonResponse (HealthJson now) 200, store = DB e, aiCalls = []\<rparr>
      else \<lparr>resp = jsonResponse (ErrorJson (js ''Not found'')) 404,
             store = DB e, aiCalls = []\<rparr>)"


subsection \<open>Runs of the worker\<close>

text \<open>
  The stores the worker can reach from a store \<open>d0\<close>: after any number of requests,
  whatever they are and whatever the classifier answers.
\<close>

inductive reachable :: "db \<Rightarrow> db \<Rightarrow> bool" for d0 :: db where
  start: "reachable d0 d0"
| step: "reachable d0 d \<Longrightarrow> reachable d0 (store (fetch \<lparr>DB = d, AI = ai, RT = rt\<rparr> now r))"

text \<open>The parts of a statistics response, \<open>None\<close> for any other response.\<close>

definition statsOf :: "outcome \<Rightarrow> stats_json option" where
  "statsOf out = (case payload (resp out) of SentimentJson _ st _ _ \<Rightarrow> Some st | _ \<Rightarrow> None)"

definition trendOf :: "outcome \<Rightarrow> trend_row list option" where
  "trendOf out = (case payload (resp out) of SentimentJson _ _ _ tr \<Rightarrow> Some tr | _ \<Rightarrow> None)"

subsection \<open>Notions of the statements\<close>

text \<open>
  The sanitizer in the words of its specification. A tag is a \<open><\<close>, a run of at least
  one code unit other than \<open>>\<close>, and a \<open>>\<close>. \<open>detag s r\<close>: \<open>r\<close> is \<open>s\<close> without its
  tags, taken from the left, each as soon as one begins. \<open>sanitizes raw r\<close>: \<open>r\<close> is
  what is left of \<open>raw\<close> when the tags are removed, then every code unit outside the
  allowed set, then the white space at both ends, and of that the first 1000 code units.
\<close>

definition tagAt :: "jsstring \<Rightarrow> bool" where
  "tagAt s \<longleftrightarrow> (\<exists>t b. s = LT # t @ GT # b \<and> t \<noteq> [] \<and> GT \<notin> set t)"

inductive detag :: "jsstring \<Rightarrow> jsstring \<Rightarrow> bool" where
  empty: "detag [] []"
| tag: "t \<noteq> [] \<Longrightarrow> GT \<notin> set t \<Longrightarrow> detag b r \<Longrightarrow> detag (LT # t @ GT # b) r"
| keep: "\<not> tagAt (c # cs) \<Longrightarrow> detag cs r \<Longrightarrow> detag (c # cs) (c # r)"

definition sanitizes :: "jsstring \<Rightarrow> jsstring \<Rightarrow> bool" where
  "sanitizes raw r \<longleftrightarrow>
     (\<exists>w pre u post.
        detag raw w \<and> filter isAllowed w = pre @ u @ post \<and>
        list_all isWhiteSpace pre \<and> list_all isWhiteSpace post \<and>
        (u = [] \<or> (\<not> isWhiteSpace (hd u) \<and> \<not> isWhiteSpace (last u))) \<and>
        r = take 1000 u)"

text \<open>The row a successful \<open>POST /api/reviews\<close> appends.\<close>

definition newRow :: "db \<Rightarrow> timestamp \<Rightarrow> json_body \<Rightarrow> rat \<Rightarrow> review" where
  "newRow d now body conf =
     \<lparr>r_id = Suc (seq d), movie_id = the (b_movieId body),
      review_text = take 1000 (the (b_text body)), sentiment = the (b_sentiment body),
      confidence = conf, created_at = now\<rparr>"

text \<open>A stored text within the cap: not empty, at most 1000 code units.\<close>

definition textCapped :: "review \<Rightarrow> bool" where
  "textCapped r \<longleftrightarrow> review_text r \<noteq> [] \<and> length (review_text r) \<le> 1000"

text \<open>
  The multiple of \<open>10^-f\<close> nearest to \<open>x\<close>, the one farther from zero on a tie: the
  number that \<open>toFixed f\<close> writes.
\<close>

definition roundedTo :: "nat \<Rightarrow> rat \<Rightarrow> rat" where
  "roundedTo f x = (if x < 0 then - 1 else 1) * of_nat (nat \<lfloor>\<bar>x\<bar> * 10 ^ f + 1 / 2\<rfloor>) / 10 ^ f"

text \<open>
  The substring reading of the search, after the words of the specification: the title
  contains the query as a run of consecutive characters, the ASCII letters compared
  without regard to case (as the pattern match of the store compares them).
\<close>

definition prefixFold :: "sqltext \<Rightarrow> sqltext \<Rightarrow> bool" where
  "prefixFold qs t \<longleftrightarrow>
     length qs \<le> length t \<and> map foldAscii (take (length qs) t) = map foldAscii qs"

fun containsFold :: "sqltext \<Rightarrow> sqltext \<Rightarrow> bool" where
  "containsFold qs [] = (qs = [])"
| "containsFold qs (c # cs) = (prefixFold qs (c # cs) \<or> containsFold qs cs)"

definition noWildcard :: "sqltext \<Rightarrow> bool" where
  "noWildcard qs \<longleftrightarrow> 37 \<notin> set qs \<and> 95 \<notin> set qs"

section \<open>Example data\<close>

text \<open>A small catalog, a classifier and requests, for the examples below.\<close>

definition sq :: "string \<Rightarrow> sqltext" where
  "sq s = map of_char s"

definition shawshank :: movie where
  "shawshank = \<lparr>m_id = js ''tt0111161'', title = sq ''The Shawshank Redemption'',
     year = Some 1994, poster_url = None\<rparr>"

definition up :: movie where
  "up = \<lparr>m_id = js ''tt1049413'', title = sq ''Up'', year = Some 2009, poster_url = None\<rparr>"

definition catalog :: db where
  "catalog = \<lparr>movies = [shawshank, up], reviews = [], seq = 0\<rparr>"

definition demoAI :: "jsstring \<Rightarrow> ai_result" where
  "demoAI t = AIReturns [\<lparr>label = Some (js ''POSITIVE''), score = Some (9 / 10)\<rparr>]"

text \<open>
  A runtime for the examples. It divides, multiplies and averages without rounding, and
  the doubles of the worker's runtime come to the same responses on the operands of the
  examples; it leaves a string beyond ASCII as it is, and no example has one.
\<close>

definition exactRuntime :: runtime where
  "exactRuntime =
     \<lparr>lowerCase = (\<lambda>s. s), fdiv = (\<lambda>a b. a / b), fmul = (\<lambda>a b. a * b),
      sqlAvg = (\<lambda>xs. sum_list xs / of_nat (length xs))\<rparr>"

definition demoEnv :: env where
  "demoEnv = \<lparr>DB = catalog, AI = demoAI, RT = exactRuntime\<rparr>"

definition postPredict :: "jsstring option \<Rightarrow> request" where
  "postPredict t =
     \<lparr>req_method = js ''POST'', req_path = js ''/api/predict'', req_q = None,
      req_body = Some \<lparr>b_movieId = None, b_text = t, b_sentiment = None, b_confidence = None\<rparr>\<rparr>"

definition postReview :: "json_body \<Rightarrow> request" where
  "postReview body =
     \<lparr>req_method = js ''POST'', req_path = js ''/api/reviews'', req_q = None,
      req_body = Some body\<rparr>"

definition getSentiment :: "jsstring \<Rightarrow> request" where
  "getSentiment mid =
     \<lparr>req_method = js ''GET'', req_path = js ''/api/movies/'' @ mid @ js ''/sentiment'',
      req_q = None, req_body = None\<rparr>"

definition getMovies :: "sqltext option \<Rightarrow> request" where
  "getMovies q =
     \<lparr>req_method = js ''GET'', req_path = js ''/api/movies'', req_q = q, req_body = None\<rparr>"

text \<open>A query of 49 letters \<open>z\<close>: its pattern \<open>%z...z%\<close> has 51 bytes.\<close>

definition longQuery :: sqltext where
  "longQuery = replicate 49 122"

definition reviewBody :: "string \<Rightarrow> string \<Rightarrow> string \<Rightarrow> rat \<Rightarrow> json_body" where
  "reviewBody mid txt sent conf =
     \<lparr>b_movieId = Some (js mid), b_text = Some (js txt), b_sentiment = Some (js sent),
      b_confidence = Some conf\<rparr>"

definition envOf :: "db \<Rightarrow> env" where
  "envOf d = \<lparr>DB = d, AI = demoAI, RT = exactRuntime\<rparr>"

definition scenarioA :: db where
  "scenarioA = store (fetch demoEnv 0
     (postReview (reviewBody ''tt0111161'' ''Best movie ever!'' ''positive'' (19 / 20))))"



definition neutralSaved :: db where
  "neutralSaved = store (fetch demoEnv 0
     (postReview (reviewBody ''tt0111161'' ''It was fine.'' ''neutral'' (9 / 10))))"

definition oddAI :: "jsstring \<Rightarrow> ai_result" where
  "oddAI t = AIReturns [\<lparr>label = Some (js ''NEUTRAL''), score = Some (3 / 2)\<rparr>]"

definition brokenAI :: "jsstring \<Rightarrow> ai_result" where
  "brokenAI t = AIReturns [\<lparr>label = Some (js ''POSITIVE''), score = None\<rparr>]"

definition saveAt :: "db \<Rightarrow> timestamp \<Rightarrow> json_body \<Rightarrow> db" where
  "saveAt d now body = store (fetch (envOf d) now (postReview body))"

definition trendDemo :: db where
  "trendDemo =
     saveAt (saveAt (saveAt (saveAt catalog
       5184000 (reviewBody ''tt0111161'' ''Old but gold.'' ''positive'' (9 / 10)))
       8553605 (reviewBody ''tt0111161'' ''Loved it.'' ''positive'' (9 / 10)))
       8640000 (reviewBody ''tt0111161'' ''Too long.'' ''negative'' (8 / 10)))
       8647200 (reviewBody ''tt0111161'' ''Great!'' ''positive'' (7 / 10))"

section \<open>The text sanitizer\<close>

lemma stripTags_subseq: "subseq (stripTags s) s"
proof (induction s rule: stripTags.induct)
  case 1
  show ?case by simp
next
  case (2 c cs)
  let ?rest = "tl (dropWhile (\<lambda>x. x \<noteq> GT) cs)"
  show ?case
  proof (cases "c = LT \<and> takeWhile (\<lambda>x. x \<noteq> GT) cs \<noteq> [] \<and> dropWhile (\<lambda>x. x \<noteq> GT) cs \<noteq> []")
    case True
    then have "subseq (stripTags ?rest) ?rest" using "2.IH"(1) by simp
    moreover have "suffix ?rest cs"
      using suffix_tl suffix_dropWhile suffix_order.trans by blast
    ultimately have "subseq (stripTags ?rest) cs"
      using suffix_imp_subseq subseq_order.trans by blast
    then have "subseq (stripTags ?rest) (c # cs)" by (rule list_emb_Cons)
    moreover have "stripTags (c # cs) = stripTags ?rest" using True by simp
    ultimately show ?thesis by simp
  next
    case False
    then have "subseq (stripTags cs) cs" using "2.IH"(2) by blast
    then show ?thesis using False by auto
  qed
qed

lemma stripTags_no_LT: "LT \<notin> set s \<Longrightarrow> stripTags s = s"
  by (induction s) auto

lemma stripTags_tag:
  assumes "LT \<notin> set a" and "t \<noteq> []" and "GT \<notin> set t"
  shows "stripTags (a @ LT # t @ GT # b) = a @ stripTags b"
  using assms(1)
proof (induction a)
  case Nil
  have tw: "takeWhile (\<lambda>x. x \<noteq> GT) (t @ GT # b) = t"
    using assms(3) by (auto simp: takeWhile_tail)
  have dw: "dropWhile (\<lambda>x. x \<noteq> GT) (t @ GT # b) = GT # b"
    using assms(3) by (auto simp: dropWhile_append3)
  show ?case using assms(2) by (simp add: tw dw)
next
  case (Cons x a)
  then show ?case by simp
qed

lemma trim_prefix: "prefix (trim s) (dropWhile isWhiteSpace s)"
proof -
  have "suffix (dropWhile isWhiteSpace (rev (dropWhile isWhiteSpace s)))
          (rev (dropWhile isWhiteSpace s))"
    by (rule suffix_dropWhile)
  then show ?thesis by (simp add: trim_def suffix_to_prefix)
qed

lemma trim_subseq: "subseq (trim s) s"
  using trim_prefix [of s] suffix_dropWhile [of isWhiteSpace s]
  by (meson prefix_imp_subseq suffix_imp_subseq subseq_order.trans)

lemma trim_hd: "trim s \<noteq> [] \<Longrightarrow> \<not> isWhiteSpace (hd (trim s))"
proof -
  assume ne: "trim s \<noteq> []"
  obtain zs where z: "dropWhile isWhiteSpace s = trim s @ zs"
    using trim_prefix [of s] by (auto simp: prefix_def)
  then have "hd (dropWhile isWhiteSpace s) = hd (trim s)" using ne by simp
  moreover have "dropWhile isWhiteSpace s \<noteq> []" using z ne by simp
  ultimately show ?thesis using hd_dropWhile [of isWhiteSpace s] by simp
qed

lemma trim_last: "trim s \<noteq> [] \<Longrightarrow> \<not> isWhiteSpace (last (trim s))"
proof -
  assume ne: "trim s \<noteq> []"
  let ?u = "dropWhile isWhiteSpace (rev (dropWhile isWhiteSpace s))"
  have u: "?u \<noteq> []" using ne by (simp add: trim_def)
  then have "\<not> isWhiteSpace (hd ?u)" by (rule hd_dropWhile)
  moreover have "last (trim s) = hd ?u" using u by (simp add: trim_def last_rev)
  ultimately show ?thesis by simp
qed

lemma trim_id:
  "s = [] \<or> (\<not> isWhiteSpace (hd s) \<and> \<not> isWhiteSpace (last s)) \<Longrightarrow> trim s = s"
proof (cases s)
  case Nil
  then show ?thesis by (simp add: trim_def)
next
  case (Cons x xs)
  assume "s = [] \<or> (\<not> isWhiteSpace (hd s) \<and> \<not> isWhiteSpace (last s))"
  with Cons have h: "\<not> isWhiteSpace x" and l: "\<not> isWhiteSpace (last s)" by auto
  have 1: "dropWhile isWhiteSpace s = s" using Cons h by simp
  obtain y ys where r: "rev s = y # ys" using Cons by (cases "rev s") auto
  then have "y = last s" using Cons by (metis hd_rev list.sel(1))
  then have "dropWhile isWhiteSpace (y # ys) = y # ys" using l by simp
  then have 2: "dropWhile isWhiteSpace (rev s) = rev s"
    by (simp only: r)
  show ?thesis by (simp add: trim_def 1 2)
qed

lemma trim_empty_iff: "trim s = [] \<longleftrightarrow> (\<forall>c\<in>set s. isWhiteSpace c)"
proof
  assume e: "trim s = []"
  have "dropWhile isWhiteSpace s = []"
  proof (rule ccontr)
    assume ne: "dropWhile isWhiteSpace s \<noteq> []"
    then have "\<not> isWhiteSpace (hd (dropWhile isWhiteSpace s))" by (rule hd_dropWhile)
    moreover have "hd (dropWhile isWhiteSpace s) \<in> set (rev (dropWhile isWhiteSpace s))"
      using ne by simp
    ultimately have "dropWhile isWhiteSpace (rev (dropWhile isWhiteSpace s)) \<noteq> []"
      by (auto simp: dropWhile_eq_Nil_conv simp del: set_rev)
    then show False using e by (simp add: trim_def)
  qed
  then show "\<forall>c\<in>set s. isWhiteSpace c"
    using dropWhile_eq_Nil_conv [of isWhiteSpace s] by blast
next
  assume "\<forall>c\<in>set s. isWhiteSpace c"
  then have "dropWhile isWhiteSpace s = []"
    using dropWhile_eq_Nil_conv [of isWhiteSpace s] by blast
  then show "trim s = []" by (simp only: trim_def rev.simps dropWhile.simps)
qed

lemma brackets_not_allowed: "\<not> isAllowed LT" "\<not> isAllowed GT"
  by (simp_all add: isAllowed_def isWhiteSpace_def)

lemma cleanText_subseq: "subseq (cleanText raw) raw"
proof -
  have "subseq (take 1000 (trim (removeSpecial (stripTags raw))))
          (trim (removeSpecial (stripTags raw)))"
    by (simp add: prefix_imp_subseq take_is_prefix)
  also have "subseq (trim (removeSpecial (stripTags raw))) (removeSpecial (stripTags raw))"
    by (rule trim_subseq)
  also have "subseq (removeSpecial (stripTags raw)) (stripTags raw)"
    by (simp add: removeSpecial_def)
  also have "subseq (stripTags raw) raw" by (rule stripTags_subseq)
  finally show ?thesis by (simp add: cleanText_def substring0_def)
qed

lemma cleanText_allowed: "c \<in> set (cleanText raw) \<Longrightarrow> isAllowed c"
proof -
  assume "c \<in> set (cleanText raw)"
  then have "c \<in> set (trim (removeSpecial (stripTags raw)))"
    unfolding cleanText_def substring0_def by (rule in_set_takeD)
  then have "c \<in> set (removeSpecial (stripTags raw))"
    using trim_subseq [of "removeSpecial (stripTags raw)"]
    by (meson subseq_order.dual_order.trans subseq_singleton_left)
  then show ?thesis by (simp add: removeSpecial_def)
qed

lemma cleanText_length: "length (cleanText raw) \<le> 1000"
  by (simp add: cleanText_def substring0_def)

lemma cleanText_hd: "cleanText raw \<noteq> [] \<Longrightarrow> \<not> isWhiteSpace (hd (cleanText raw))"
proof -
  let ?t = "trim (removeSpecial (stripTags raw))"
  assume "cleanText raw \<noteq> []"
  then have ne: "?t \<noteq> []" by (auto simp: cleanText_def substring0_def)
  have "hd (cleanText raw) = hd ?t" by (simp add: cleanText_def substring0_def hd_take)
  then show ?thesis using trim_hd [OF ne] by simp
qed

lemma cleanText_last:
  assumes "length (trim (removeSpecial (stripTags raw))) \<le> 1000" and "cleanText raw \<noteq> []"
  shows "\<not> isWhiteSpace (last (cleanText raw))"
proof -
  have eq: "cleanText raw = trim (removeSpecial (stripTags raw))"
    using assms(1) by (simp add: cleanText_def substring0_def)
  show ?thesis using assms(2) trim_last unfolding eq by blast
qed

lemma cleanText_clean_id:
  assumes "\<forall>c\<in>set raw. isAllowed c"
    and "raw = [] \<or> (\<not> isWhiteSpace (hd raw) \<and> \<not> isWhiteSpace (last raw))"
    and "length raw \<le> 1000"
  shows "cleanText raw = raw"
proof -
  have "LT \<notin> set raw" using assms(1) brackets_not_allowed(1) by blast
  then have "stripTags raw = raw" by (rule stripTags_no_LT)
  moreover have "removeSpecial raw = raw" using assms(1) by (simp add: removeSpecial_def)
  moreover have "trim raw = raw" using assms(2) by (rule trim_id)
  ultimately show ?thesis using assms(3) by (simp add: cleanText_def substring0_def)
qed

lemma tagAt_iff:
  "tagAt (c # cs) \<longleftrightarrow>
     c = LT \<and> takeWhile (\<lambda>x. x \<noteq> GT) cs \<noteq> [] \<and> dropWhile (\<lambda>x. x \<noteq> GT) cs \<noteq> []"
proof
  assume "tagAt (c # cs)"
  then obtain t b where c: "c = LT" and cs: "cs = t @ GT # b" and t: "t \<noteq> []" "GT \<notin> set t"
    by (auto simp: tagAt_def)
  have "takeWhile (\<lambda>x. x \<noteq> GT) cs = t" using t(2) by (auto simp: cs takeWhile_tail)
  moreover have "dropWhile (\<lambda>x. x \<noteq> GT) cs = GT # b"
    using t(2) by (auto simp: cs dropWhile_append3)
  ultimately show "c = LT \<and> takeWhile (\<lambda>x. x \<noteq> GT) cs \<noteq> [] \<and> dropWhile (\<lambda>x. x \<noteq> GT) cs \<noteq> []"
    using c t(1) by simp
next
  let ?t = "takeWhile (\<lambda>x. x \<noteq> GT) cs" and ?d = "dropWhile (\<lambda>x. x \<noteq> GT) cs"
  assume a: "c = LT \<and> ?t \<noteq> [] \<and> ?d \<noteq> []"
  then have "\<not> hd ?d \<noteq> GT" using hd_dropWhile [of "\<lambda>x. x \<noteq> GT" cs] by blast
  then have d: "?d = GT # tl ?d" using a by (cases ?d) auto
  have "cs = ?t @ ?d" by simp
  then have "c # cs = LT # ?t @ GT # tl ?d" using a d by simp
  moreover have "GT \<notin> set ?t" using set_takeWhileD by fastforce
  ultimately show "tagAt (c # cs)" using a unfolding tagAt_def by blast
qed

lemma detag_stripTags: "detag s (stripTags s)"
proof (induction s rule: stripTags.induct)
  case 1
  show ?case by (simp add: detag.empty)
next
  case (2 c cs)
  let ?t = "takeWhile (\<lambda>x. x \<noteq> GT) cs" and ?d = "dropWhile (\<lambda>x. x \<noteq> GT) cs"
  show ?case
  proof (cases "tagAt (c # cs)")
    case True
    then have m: "c = LT \<and> ?t \<noteq> [] \<and> ?d \<noteq> []" by (simp add: tagAt_iff)
    then have "\<not> hd ?d \<noteq> GT" using hd_dropWhile [of "\<lambda>x. x \<noteq> GT" cs] by blast
    then have d: "?d = GT # tl ?d" using m by (cases ?d) auto
    have "cs = ?t @ ?d" by simp
    then have shape: "c # cs = LT # ?t @ GT # tl ?d" using m d by simp
    have nt: "GT \<notin> set ?t" using set_takeWhileD by fastforce
    have "detag (tl ?d) (stripTags (tl ?d))" using "2.IH"(1) m by simp
    then have "detag (LT # ?t @ GT # tl ?d) (stripTags (tl ?d))"
      using m nt by (intro detag.tag) simp_all
    moreover have "stripTags (c # cs) = stripTags (tl ?d)" using m by simp
    ultimately show ?thesis by (simp only: shape [symmetric])
  next
    case False
    then have n: "\<not> (c = LT \<and> ?t \<noteq> [] \<and> ?d \<noteq> [])" by (simp add: tagAt_iff)
    then have "detag cs (stripTags cs)" using "2.IH"(2) by blast
    then have "detag (c # cs) (c # stripTags cs)" using False by (rule detag.keep [rotated])
    moreover have "stripTags (c # cs) = c # stripTags cs" using n by auto
    ultimately show ?thesis by simp
  qed
qed

lemma detag_unique: "detag s r \<Longrightarrow> r = stripTags s"
proof (induction rule: detag.induct)
  case empty
  show ?case by simp
next
  case (tag t b r)
  then show ?case using stripTags_tag [of "[]" t b] by simp
next
  case (keep c cs r)
  then have "\<not> (c = LT \<and> takeWhile (\<lambda>x. x \<noteq> GT) cs \<noteq> [] \<and> dropWhile (\<lambda>x. x \<noteq> GT) cs \<noteq> [])"
    by (simp add: tagAt_iff)
  then have "stripTags (c # cs) = c # stripTags cs" by auto
  then show ?case using keep by simp
qed

lemma trim_decomposition:
  "\<exists>pre post. s = pre @ trim s @ post \<and> list_all isWhiteSpace pre \<and> list_all isWhiteSpace post"
proof -
  let ?v = "dropWhile isWhiteSpace s"
  let ?pre = "takeWhile isWhiteSpace s"
  let ?post = "rev (takeWhile isWhiteSpace (rev ?v))"
  have "rev (takeWhile isWhiteSpace (rev ?v) @ dropWhile isWhiteSpace (rev ?v)) = rev (rev ?v)"
    by (simp only: takeWhile_dropWhile_id)
  then have "rev (dropWhile isWhiteSpace (rev ?v)) @ ?post = ?v"
    by (simp only: rev_append rev_rev_ident)
  then have v: "?v = trim s @ ?post" by (simp only: trim_def)
  have "s = ?pre @ ?v" by simp
  then have "s = ?pre @ trim s @ ?post" using v by simp
  moreover have "list_all isWhiteSpace ?pre"
    by (simp add: list_all_iff) (meson set_takeWhileD)
  moreover have "list_all isWhiteSpace ?post"
    by (simp add: list_all_iff del: set_rev) (metis set_rev set_takeWhileD)
  ultimately show ?thesis by blast
qed

lemma trim_unique:
  assumes "s = pre @ u @ post" and "list_all isWhiteSpace pre" and "list_all isWhiteSpace post"
    and "u = [] \<or> (\<not> isWhiteSpace (hd u) \<and> \<not> isWhiteSpace (last u))"
  shows "trim s = u"
proof (cases "u = []")
  case True
  then have "\<forall>c\<in>set s. isWhiteSpace c" using assms(1,2,3) by (auto simp: list_all_iff)
  then show ?thesis using True by (simp add: trim_empty_iff)
next
  case False
  then obtain x xs where u: "u = x # xs" by (cases u) auto
  have h: "\<not> isWhiteSpace x" and l: "\<not> isWhiteSpace (last u)" using assms(4) False u by auto
  have pre: "\<And>c. c \<in> set pre \<Longrightarrow> isWhiteSpace c" using assms(2) by (simp add: list_all_iff)
  have post: "\<And>c. c \<in> set (rev post) \<Longrightarrow> isWhiteSpace c"
    using assms(3) by (simp add: list_all_iff)
  have "dropWhile isWhiteSpace (pre @ u @ post) = dropWhile isWhiteSpace (u @ post)"
    using pre by (rule dropWhile_append2)
  also have "\<dots> = u @ post" using h by (simp add: u)
  finally have 1: "dropWhile isWhiteSpace s = u @ post" by (simp add: assms(1))
  obtain y ys where r: "rev u = y # ys" using False by (cases "rev u") auto
  then have "y = last u" using False by (metis hd_rev list.sel(1))
  then have 2: "dropWhile isWhiteSpace (rev u) = rev u" using l by (simp add: r)
  have "dropWhile isWhiteSpace (rev post @ rev u) = dropWhile isWhiteSpace (rev u)"
    using post by (rule dropWhile_append2)
  then have "dropWhile isWhiteSpace (rev (u @ post)) = rev u" using 2 by simp
  then show ?thesis by (simp add: trim_def 1)
qed

lemma sanitizes_iff: "sanitizes raw r \<longleftrightarrow> r = cleanText raw"
proof
  assume "sanitizes raw r"
  then obtain w pre u post where w: "detag raw w"
    and d: "filter isAllowed w = pre @ u @ post"
    and ws: "list_all isWhiteSpace pre" "list_all isWhiteSpace post"
    and u: "u = [] \<or> (\<not> isWhiteSpace (hd u) \<and> \<not> isWhiteSpace (last u))"
    and r: "r = take 1000 u"
    unfolding sanitizes_def by blast
  have "w = stripTags raw" using w by (rule detag_unique)
  then have "trim (removeSpecial (stripTags raw)) = u"
    using trim_unique [OF d ws u] by (simp add: removeSpecial_def)
  then show "r = cleanText raw" by (simp add: r cleanText_def substring0_def)
next
  assume r: "r = cleanText raw"
  let ?v = "filter isAllowed (stripTags raw)"
  obtain pre post where d: "?v = pre @ trim ?v @ post"
    and ws: "list_all isWhiteSpace pre" "list_all isWhiteSpace post"
    using trim_decomposition [of ?v] by blast
  have u: "trim ?v = [] \<or> (\<not> isWhiteSpace (hd (trim ?v)) \<and> \<not> isWhiteSpace (last (trim ?v)))"
    using trim_hd [of ?v] trim_last [of ?v] by blast
  have "r = take 1000 (trim ?v)" by (simp add: r cleanText_def substring0_def removeSpecial_def)
  then show "sanitizes raw r"
    unfolding sanitizes_def using detag_stripTags [of raw] d ws u by blast
qed

text \<open>
  C6. For every input string, \<open>cleanText\<close> (the sanitizer) returns exactly the string
  its specification describes: the input without its tags, then without every code
  unit outside the letters, digits, white space and \<open>. , ! ?\<close>, then without the white
  space at both ends, cut to its first 1000 code units. Hence the result only removes
  code units from the input, has no code unit outside the allowed set (so no angle
  bracket is left), has at most 1000 code units, does not start with white space, and
  does not end with white space when the trimmed text fits into 1000 code units. A
  text that is already clean is returned as it is. \<open><b>Great movie!!!</b>\<close> becomes
  \<open>Great movie!!!\<close>. The function is total and reads nothing but its argument.
\<close>

theorem cleanText_sanitizes:
  "(sanitizes raw r \<longleftrightarrow> r = cleanText raw)
   \<and> (\<forall>c\<in>set (cleanText raw). isAllowed c)
   \<and> LT \<notin> set (cleanText raw) \<and> GT \<notin> set (cleanText raw)
   \<and> length (cleanText raw) \<le> 1000
   \<and> (cleanText raw = [] \<or> \<not> isWhiteSpace (hd (cleanText raw)))
   \<and> (length (trim (removeSpecial (stripTags raw))) \<le> 1000 \<longrightarrow>
        cleanText raw = [] \<or> \<not> isWhiteSpace (last (cleanText raw)))
   \<and> subseq (cleanText raw) raw
   \<and> ((\<forall>c\<in>set raw. isAllowed c) \<and>
        (raw = [] \<or> (\<not> isWhiteSpace (hd raw) \<and> \<not> isWhiteSpace (last raw))) \<and>
        length raw \<le> 1000 \<longrightarrow> cleanText raw = raw)
   \<and> cleanText (js ''<b>Great movie!!!</b>'') = js ''Great movie!!!''"
proof -
  have allowed: "\<forall>c\<in>set (cleanText raw). isAllowed c"
    using cleanText_allowed by blast
  have lt: "LT \<notin> set (cleanText raw)" and gt: "GT \<notin> set (cleanText raw)"
    using allowed brackets_not_allowed by blast+
  have ex: "cleanText (js ''<b>Great movie!!!</b>'') = js ''Great movie!!!''"
    by code_simp
  show ?thesis
    using sanitizes_iff [of raw r] allowed lt gt cleanText_length [of raw] cleanText_hd [of raw]
      cleanText_last [of raw] cleanText_subseq [of raw] cleanText_clean_id [of raw] ex
    by blast
qed

theorem cleanText_sanitizes_witness:
  "sanitizes (js ''<b>Great movie!!!</b>'') (js ''Great movie!!!'')
   \<and> cleanText (js ''Fine, really!'') = js ''Fine, really!''
   \<and> cleanText (js ''  <p>#1 of 10?</p> '') = js ''1 of 10?''
   \<and> length (cleanText (js ''  <p>#1 of 10?</p> '')) \<le> 1000
   \<and> LT \<notin> set (cleanText (js ''  <p>#1 of 10?</p> ''))"
proof -
  have 0: "sanitizes (js ''<b>Great movie!!!</b>'') (js ''Great movie!!!'')"
    using cleanText_sanitizes [of "js ''<b>Great movie!!!</b>''" "js ''Great movie!!!''"]
    by simp
  have 1: "cleanText (js ''Fine, really!'') = js ''Fine, really!''"
    using cleanText_sanitizes [of "js ''Fine, really!''"]
    by (simp add: js_def isAllowed_def isWhiteSpace_def)
  have e: "cleanText (js ''  <p>#1 of 10?</p> '') = js ''1 of 10?''" by code_simp
  have 3: "length (cleanText (js ''  <p>#1 of 10?</p> '')) \<le> 1000
     \<and> LT \<notin> set (cleanText (js ''  <p>#1 of 10?</p> ''))"
    using cleanText_sanitizes [of "js ''  <p>#1 of 10?</p> ''"] by blast
  show ?thesis using 0 1 e 3 by blast
qed

section \<open>POST /api/predict: validation of the text\<close>


lemma fetch_predict:
  "fetch e now \<lparr>req_method = js ''POST'', req_path = js ''/api/predict'', req_q = q,
      req_body = Some body\<rparr> = predict e body"
  by (simp add: fetch_def js_def)




section \<open>POST /api/reviews: what is checked and what is stored\<close>

lemma fetch_reviews:
  "fetch e now \<lparr>req_method = js ''POST'', req_path = js ''/api/reviews'', req_q = q,
      req_body = Some body\<rparr> = saveReview e now body"
  by (simp add: fetch_def js_def)

lemma saveReview_rejected:
  "falsy (b_movieId body) \<or> falsy (b_text body) \<or> falsy (b_sentiment body) \<Longrightarrow>
   saveReview e now body =
     \<lparr>resp = jsonResponse (ErrorJson (js ''Missing required fields'')) 400,
      store = DB e, aiCalls = []\<rparr>"
  by (simp add: saveReview_def)

lemma saveReview_not_found:
  "\<not> (falsy (b_movieId body) \<or> falsy (b_text body) \<or> falsy (b_sentiment body)) \<Longrightarrow>
   findMovie (DB e) (the (b_movieId body)) = None \<Longrightarrow>
   saveReview e now body =
     \<lparr>resp = jsonResponse (ErrorJson (js ''Movie not found'')) 404,
      store = DB e, aiCalls = []\<rparr>"
  by (simp add: saveReview_def)

lemma saveReview_unbound:
  "\<not> (falsy (b_movieId body) \<or> falsy (b_text body) \<or> falsy (b_sentiment body)) \<Longrightarrow>
   findMovie (DB e) (the (b_movieId body)) = Some m \<Longrightarrow> b_confidence body = None \<Longrightarrow>
   saveReview e now body = \<lparr>resp = internalError BindUndefined, store = DB e, aiCalls = []\<rparr>"
  by (simp add: saveReview_def)

lemma saveReview_inserted:
  "\<not> (falsy (b_movieId body) \<or> falsy (b_text body) \<or> falsy (b_sentiment body)) \<Longrightarrow>
   findMovie (DB e) (the (b_movieId body)) = Some m \<Longrightarrow> b_confidence body = Some conf \<Longrightarrow>
   saveReview e now body =
     \<lparr>resp = jsonResponse (SavedJson (Suc (seq (DB e)))) 201,
      store = (DB e)\<lparr>reviews := reviews (DB e) @ [newRow (DB e) now body conf],
        seq := Suc (seq (DB e))\<rparr>,
      aiCalls = []\<rparr>"
  by (simp add: saveReview_def insertReview_def Let_def substring0_def newRow_def)

lemma saveReview_cases:
  obtains (rejected) "falsy (b_movieId body) \<or> falsy (b_text body) \<or> falsy (b_sentiment body)"
  | (not_found) "\<not> (falsy (b_movieId body) \<or> falsy (b_text body) \<or> falsy (b_sentiment body))"
      "findMovie (DB e) (the (b_movieId body)) = None"
  | (unbound) m where
      "\<not> (falsy (b_movieId body) \<or> falsy (b_text body) \<or> falsy (b_sentiment body))"
      "findMovie (DB e) (the (b_movieId body)) = Some m" "b_confidence body = None"
  | (inserted) m conf where
      "\<not> (falsy (b_movieId body) \<or> falsy (b_text body) \<or> falsy (b_sentiment body))"
      "findMovie (DB e) (the (b_movieId body)) = Some m" "b_confidence body = Some conf"
  by (cases "findMovie (DB e) (the (b_movieId body))"; cases "b_confidence body") auto

lemma saveReview_status_400:
  "status (resp (saveReview e now body)) = 400 \<longleftrightarrow>
     falsy (b_movieId body) \<or> falsy (b_text body) \<or> falsy (b_sentiment body)"
proof (cases rule: saveReview_cases [where body = body and e = e])
  case rejected
  then show ?thesis by (simp add: saveReview_rejected jsonResponse_def)
next
  case not_found
  then show ?thesis by (simp add: saveReview_not_found jsonResponse_def)
next
  case (unbound m)
  then show ?thesis by (simp add: saveReview_unbound jsonResponse_def internalError_def)
next
  case (inserted m conf)
  then show ?thesis by (simp add: saveReview_inserted jsonResponse_def)
qed

lemma saveReview_status_201:
  "status (resp (saveReview e now body)) = 201 \<longleftrightarrow>
     \<not> (falsy (b_movieId body) \<or> falsy (b_text body) \<or> falsy (b_sentiment body)) \<and>
     findMovie (DB e) (the (b_movieId body)) \<noteq> None \<and> b_confidence body \<noteq> None"
proof (cases rule: saveReview_cases [where body = body and e = e])
  case rejected
  then show ?thesis by (simp add: saveReview_rejected jsonResponse_def)
next
  case not_found
  then show ?thesis by (simp add: saveReview_not_found jsonResponse_def)
next
  case (unbound m)
  then show ?thesis by (simp add: saveReview_unbound jsonResponse_def internalError_def)
next
  case (inserted m conf)
  then show ?thesis by (simp add: saveReview_inserted jsonResponse_def)
qed

lemma saveReview_store:
  "store (saveReview e now body) =
     (if status (resp (saveReview e now body)) = 201
      then (DB e)\<lparr>reviews := reviews (DB e) @ [newRow (DB e) now body (the (b_confidence body))],
             seq := Suc (seq (DB e))\<rparr>
      else DB e)"
proof (cases rule: saveReview_cases [where body = body and e = e])
  case rejected
  then show ?thesis by (simp add: saveReview_rejected jsonResponse_def)
next
  case not_found
  then show ?thesis by (simp add: saveReview_not_found jsonResponse_def)
next
  case (unbound m)
  then show ?thesis by (simp add: saveReview_unbound jsonResponse_def internalError_def)
next
  case (inserted m conf)
  then show ?thesis by (simp add: saveReview_inserted jsonResponse_def)
qed

lemma newRow_text:
  "\<not> falsy (b_text body) \<Longrightarrow>
   review_text (newRow d now body conf) \<noteq> [] \<and> length (review_text (newRow d now body conf)) \<le> 1000"
  by (cases "b_text body") (auto simp: newRow_def falsy_def)

lemma predict_store: "store (predict e body) = DB e"
  by (simp add: predict_def Let_def)

lemma movieSentiment_store: "store (movieSentiment e now mid) = DB e"
  by (simp add: movieSentiment_def split: option.splits)

lemma listMovies_store: "store (listMovies e q) = DB e"
  by (simp add: listMovies_def split: sum.splits)

lemma fetch_store_cases:
  "store (fetch e now r) = DB e \<or>
   (\<exists>body. req_body r = Some body \<and> store (fetch e now r) = store (saveReview e now body))"
  unfolding fetch_def
  by (cases "req_body r") (simp_all add: predict_store movieSentiment_store listMovies_store)

lemma fetch_keeps_capped:
  assumes "\<forall>r\<in>set (reviews (DB e)). textCapped r"
  shows "\<forall>r\<in>set (reviews (store (fetch e now rq))). textCapped r"
proof -
  consider "store (fetch e now rq) = DB e"
    | body where "store (fetch e now rq) = store (saveReview e now body)"
    using fetch_store_cases [of e now rq] by blast
  then show ?thesis
  proof cases
    case 1
    then show ?thesis using assms by simp
  next
    case (2 body)
    show ?thesis
    proof (cases "status (resp (saveReview e now body)) = 201")
      case True
      then have "\<not> falsy (b_text body)" by (simp add: saveReview_status_201)
      then have "textCapped (newRow (DB e) now body (the (b_confidence body)))"
        using newRow_text by (simp add: textCapped_def)
      then show ?thesis using assms 2 True by (simp add: saveReview_store)
    next
      case False
      then show ?thesis using assms 2 by (simp add: saveReview_store)
    qed
  qed
qed

lemma reachable_capped:
  assumes "reachable d0 d" and "\<forall>r\<in>set (reviews d0). textCapped r"
  shows "\<forall>r\<in>set (reviews d). textCapped r"
  using assms
proof (induction rule: reachable.induct)
  case start
  then show ?case by simp
next
  case (step d ai rt now r)
  then have "\<forall>r\<in>set (reviews (DB \<lparr>DB = d, AI = ai, RT = rt\<rparr>)). textCapped r" by simp
  then show ?case by (rule fetch_keeps_capped)
qed

text \<open>
  C1, as the worker has it. For every request to \<open>POST /api/reviews\<close> that carries a
  numeric confidence: the answer is 400 exactly when \<open>movieId\<close>, \<open>text\<close> or
  \<open>sentiment\<close> is absent or empty, and then nothing is stored; with the three fields
  there and no such movie the answer is 404 and nothing is stored; with the three
  fields there and the movie in the catalog the answer is 201 and one review is
  appended that carries the confidence of the request unchanged, whatever its value:
  the confidence is not compared with 0 or 1.
\<close>

theorem saveReview_validation:
  "b_confidence body = Some conf \<longrightarrow>
   (let out = fetch e now \<lparr>req_method = js ''POST'', req_path = js ''/api/reviews'',
                req_q = q, req_body = Some body\<rparr>;
        missing = (falsy (b_movieId body) \<or> falsy (b_text body) \<or> falsy (b_sentiment body))
    in (status (resp out) = 400 \<longleftrightarrow> missing)
     \<and> (missing \<longrightarrow>
          resp out = jsonResponse (ErrorJson (js ''Missing required fields'')) 400 \<and>
          store out = DB e)
     \<and> (\<not> missing \<and> findMovie (DB e) (the (b_movieId body)) = None \<longrightarrow>
          resp out = jsonResponse (ErrorJson (js ''Movie not found'')) 404 \<and> store out = DB e)
     \<and> (\<not> missing \<and> findMovie (DB e) (the (b_movieId body)) \<noteq> None \<longrightarrow>
          status (resp out) = 201 \<and>
          reviews (store out) = reviews (DB e) @ [newRow (DB e) now body conf] \<and>
          confidence (newRow (DB e) now body conf) = conf))"
proof
  assume c: "b_confidence body = Some conf"
  let ?out = "saveReview e now body"
  let ?missing = "falsy (b_movieId body) \<or> falsy (b_text body) \<or> falsy (b_sentiment body)"
  have 1: "status (resp ?out) = 400 \<longleftrightarrow> ?missing" by (rule saveReview_status_400)
  have 2: "?missing \<longrightarrow>
      resp ?out = jsonResponse (ErrorJson (js ''Missing required fields'')) 400 \<and> store ?out = DB e"
    using saveReview_rejected [of body e now] by simp
  have 3: "\<not> ?missing \<and> findMovie (DB e) (the (b_movieId body)) = None \<longrightarrow>
      resp ?out = jsonResponse (ErrorJson (js ''Movie not found'')) 404 \<and> store ?out = DB e"
    using saveReview_not_found [of body e now] by simp
  have 4: "\<not> ?missing \<and> findMovie (DB e) (the (b_movieId body)) \<noteq> None \<longrightarrow>
      status (resp ?out) = 201 \<and>
      reviews (store ?out) = reviews (DB e) @ [newRow (DB e) now body conf] \<and>
      confidence (newRow (DB e) now body conf) = conf"
  proof (intro impI, elim conjE)
    assume m: "\<not> ?missing" and f: "findMovie (DB e) (the (b_movieId body)) \<noteq> None"
    then obtain mv where "findMovie (DB e) (the (b_movieId body)) = Some mv" by blast
    then show "status (resp ?out) = 201 \<and>
      reviews (store ?out) = reviews (DB e) @ [newRow (DB e) now body conf] \<and>
      confidence (newRow (DB e) now body conf) = conf"
      using saveReview_inserted [OF m _ c, of e mv now]
      by (simp add: jsonResponse_def newRow_def)
  qed
  show "let out = fetch e now \<lparr>req_method = js ''POST'', req_path = js ''/api/reviews'',
                req_q = q, req_body = Some body\<rparr>;
        missing = (falsy (b_movieId body) \<or> falsy (b_text body) \<or> falsy (b_sentiment body))
    in (status (resp out) = 400 \<longleftrightarrow> missing)
     \<and> (missing \<longrightarrow>
          resp out = jsonResponse (ErrorJson (js ''Missing required fields'')) 400 \<and>
          store out = DB e)
     \<and> (\<not> missing \<and> findMovie (DB e) (the (b_movieId body)) = None \<longrightarrow>
          resp out = jsonResponse (ErrorJson (js ''Movie not found'')) 404 \<and> store out = DB e)
     \<and> (\<not> missing \<and> findMovie (DB e) (the (b_movieId body)) \<noteq> None \<longrightarrow>
          status (resp out) = 201 \<and>
          reviews (store out) = reviews (DB e) @ [newRow (DB e) now body conf] \<and>
          confidence (newRow (DB e) now body conf) = conf)"
    unfolding Let_def fetch_reviews using 1 2 3 4 by blast
qed

lemma demo_find: "findMovie (DB demoEnv) (js ''tt0111161'') = Some shawshank"
  by (simp add: findMovie_def demoEnv_def catalog_def shawshank_def js_def)

theorem saveReview_validation_witness:
  "status (resp (fetch demoEnv 0
      (postReview (reviewBody ''tt0111161'' ''Best movie ever!'' ''positive'' (19 / 20))))) = 201
   \<and> status (resp (fetch demoEnv 0
      (postReview (reviewBody ''tt0111161'' [] ''positive'' (19 / 20))))) = 400
   \<and> status (resp (fetch demoEnv 0
      (postReview (reviewBody ''tt9999999'' ''text'' ''positive'' (9 / 10))))) = 404"
proof -
  have 1: "status (resp (fetch demoEnv 0
      (postReview (reviewBody ''tt0111161'' ''Best movie ever!'' ''positive'' (19 / 20))))) = 201"
    using saveReview_validation [of "reviewBody ''tt0111161'' ''Best movie ever!'' ''positive'' (19 / 20)"
        "19 / 20" demoEnv 0 None] demo_find
    by (simp add: Let_def postReview_def reviewBody_def falsy_def js_def)
  have 2: "status (resp (fetch demoEnv 0
      (postReview (reviewBody ''tt0111161'' [] ''positive'' (19 / 20))))) = 400"
    using saveReview_validation [of "reviewBody ''tt0111161'' [] ''positive'' (19 / 20)"
        "19 / 20" demoEnv 0 None]
    by (simp add: Let_def postReview_def reviewBody_def falsy_def js_def jsonResponse_def)
  have 3: "status (resp (fetch demoEnv 0
      (postReview (reviewBody ''tt9999999'' ''text'' ''positive'' (9 / 10))))) = 404"
    using saveReview_validation [of "reviewBody ''tt9999999'' ''text'' ''positive'' (9 / 10)"
        "9 / 10" demoEnv 0 None]
    by (simp add: Let_def postReview_def reviewBody_def falsy_def js_def jsonResponse_def
        findMovie_def demoEnv_def catalog_def shawshank_def up_def)
  show ?thesis using 1 2 3 by blast
qed

theorem saveReview_validation_counterexample:
  "status (resp (fetch demoEnv 0
      (postReview (reviewBody ''tt0111161'' ''Best movie ever!'' ''positive'' (3 / 2))))) = 201
   \<and> map confidence (reviews (store (fetch demoEnv 0
      (postReview (reviewBody ''tt0111161'' ''Best movie ever!'' ''positive'' (3 / 2)))))) = [3 / 2]"
  by (simp add: fetch_def postReview_def reviewBody_def saveReview_def falsy_def js_def
      findMovie_def demoEnv_def catalog_def shawshank_def up_def insertReview_def Let_def
      jsonResponse_def)

text \<open>
  C5, as the worker has it. A successful \<open>POST /api/reviews\<close> appends one review whose
  text is the first 1000 code units of the text of the request, which is not empty; the
  text is stored as submitted, not sanitized. Any other answer leaves the store as it
  was. Hence in every store reached from one without reviews, every review has a text
  that is not empty and at most 1000 code units long.
\<close>

theorem saved_text_capped:
  "(let out = fetch e now \<lparr>req_method = js ''POST'', req_path = js ''/api/reviews'',
                req_q = q, req_body = Some body\<rparr>
    in (status (resp out) = 201 \<longrightarrow>
          (\<exists>row. reviews (store out) = reviews (DB e) @ [row] \<and>
             review_text row = take 1000 (the (b_text body)) \<and>
             the (b_text body) \<noteq> [] \<and> textCapped row))
     \<and> (status (resp out) \<noteq> 201 \<longrightarrow> store out = DB e))
   \<and> (reviews d0 = [] \<and> reachable d0 d \<longrightarrow> (\<forall>r\<in>set (reviews d). textCapped r))"
proof -
  let ?out = "saveReview e now body"
  let ?row = "newRow (DB e) now body (the (b_confidence body))"
  have 1: "status (resp ?out) = 201 \<longrightarrow>
      (\<exists>row. reviews (store ?out) = reviews (DB e) @ [row] \<and>
         review_text row = take 1000 (the (b_text body)) \<and>
         the (b_text body) \<noteq> [] \<and> textCapped row)"
  proof
    assume ok: "status (resp ?out) = 201"
    then have t: "\<not> falsy (b_text body)" by (simp add: saveReview_status_201)
    then have ne: "the (b_text body) \<noteq> []" by (cases "b_text body") (auto simp: falsy_def)
    have "reviews (store ?out) = reviews (DB e) @ [?row]"
      using ok by (simp add: saveReview_store)
    moreover have "review_text ?row = take 1000 (the (b_text body))" by (simp add: newRow_def)
    moreover have "textCapped ?row" using newRow_text [OF t] by (simp add: textCapped_def)
    ultimately show "\<exists>row. reviews (store ?out) = reviews (DB e) @ [row] \<and>
         review_text row = take 1000 (the (b_text body)) \<and>
         the (b_text body) \<noteq> [] \<and> textCapped row"
      using ne by blast
  qed
  have 2: "status (resp ?out) \<noteq> 201 \<longrightarrow> store ?out = DB e"
    by (simp add: saveReview_store)
  have 3: "reviews d0 = [] \<and> reachable d0 d \<longrightarrow> (\<forall>r\<in>set (reviews d). textCapped r)"
    using reachable_capped [of d0 d] by simp
  show ?thesis unfolding Let_def fetch_reviews using 1 2 3 by blast
qed

theorem saved_text_capped_witness:
  "reviews (store (fetch demoEnv 7
      (postReview (reviewBody ''tt0111161'' ''Best movie ever!'' ''positive'' (19 / 20))))) =
     [\<lparr>r_id = 1, movie_id = js ''tt0111161'', review_text = js ''Best movie ever!'',
       sentiment = js ''positive'', confidence = 19 / 20, created_at = 7\<rparr>]
   \<and> textCapped \<lparr>r_id = 1, movie_id = js ''tt0111161'', review_text = js ''Best movie ever!'',
       sentiment = js ''positive'', confidence = 19 / 20, created_at = 7\<rparr>"
proof -
  let ?rq = "postReview (reviewBody ''tt0111161'' ''Best movie ever!'' ''positive'' (19 / 20))"
  have r: "reachable catalog (store (fetch \<lparr>DB = catalog, AI = demoAI, RT = exactRuntime\<rparr> 7 ?rq))"
    by (intro reachable.step reachable.start)
  have eq: "reviews (store (fetch demoEnv 7 ?rq)) =
     [\<lparr>r_id = 1, movie_id = js ''tt0111161'', review_text = js ''Best movie ever!'',
       sentiment = js ''positive'', confidence = 19 / 20, created_at = 7\<rparr>]"
    by (simp add: fetch_def postReview_def reviewBody_def saveReview_def falsy_def js_def
      findMovie_def demoEnv_def catalog_def shawshank_def up_def insertReview_def Let_def
      substring0_def)
  have "\<forall>r\<in>set (reviews (store (fetch demoEnv 7 ?rq))). textCapped r"
    using saved_text_capped [of demoEnv 7 None "reviewBody ''tt0111161'' ''Best movie ever!'' ''positive'' (19 / 20)"
        catalog "store (fetch demoEnv 7 ?rq)"] r
    by (simp add: demoEnv_def catalog_def)
  then show ?thesis using eq by simp
qed

theorem saved_text_capped_counterexample:
  "map review_text (reviews (store (fetch demoEnv 0
      (postReview (reviewBody ''tt0111161'' ''<b>Great</b> #1'' ''positive'' (9 / 10)))))) =
     [js ''<b>Great</b> #1'']
   \<and> cleanText (js ''<b>Great</b> #1'') = js ''Great 1''
   \<and> LT \<in> set (js ''<b>Great</b> #1'')"
proof -
  have "cleanText (js ''<b>Great</b> #1'') = js ''Great 1''" by code_simp
  then show ?thesis
    by (simp add: fetch_def postReview_def reviewBody_def saveReview_def falsy_def js_def
      findMovie_def demoEnv_def catalog_def shawshank_def up_def insertReview_def Let_def
      substring0_def)
qed

section \<open>Decimal rendering and parsing\<close>

lemma digit_unat: "n < 10 \<Longrightarrow> unat (digit n) = 48 + n"
proof -
  assume "n < 10"
  then have "(48 + n) mod 2 ^ LENGTH(16) = 48 + n" by simp
  then show ?thesis by (simp only: digit_def unat_of_nat)
qed

lemma digit_isDigit: "n < 10 \<Longrightarrow> isDigit (digit n)"
  unfolding isDigit_def word_le_nat_alt by (simp add: digit_unat)

lemma digitsVal_append: "digitsVal (a @ b) = foldl (\<lambda>acc c. 10 * acc + (unat c - 48)) (digitsVal a) b"
  by (simp add: digitsVal_def)

lemma foldl_digits_shift:
  "foldl (\<lambda>acc c. 10 * acc + (unat c - 48)) v b = v * 10 ^ length b + digitsVal b"
proof (induction b arbitrary: v rule: rev_induct)
  case Nil
  show ?case by (simp add: digitsVal_def)
next
  case (snoc x xs)
  let ?f = "\<lambda>acc c. 10 * acc + (unat c - 48)"
  have "foldl ?f v (xs @ [x]) = 10 * foldl ?f v xs + (unat x - 48)" by simp
  also have "\<dots> = 10 * (v * 10 ^ length xs + digitsVal xs) + (unat x - 48)"
    by (simp only: snoc)
  also have "\<dots> = v * 10 ^ length (xs @ [x]) + (10 * digitsVal xs + (unat x - 48))"
    by (simp add: algebra_simps)
  also have "10 * digitsVal xs + (unat x - 48) = digitsVal (xs @ [x])"
    by (simp add: digitsVal_def)
  finally show ?case .
qed

lemma digitsVal_app: "digitsVal (a @ b) = digitsVal a * 10 ^ length b + digitsVal b"
  by (simp add: digitsVal_append foldl_digits_shift)

lemma digitsVal_decimal: "digitsVal (decimal n) = n"
proof (induction n rule: decimal.induct)
  case (1 n)
  show ?case
  proof (cases "n < 10")
    case True
    then show ?thesis by (simp add: decimal.simps [of n] digitsVal_def digit_unat)
  next
    case False
    then have "digitsVal (decimal (n div 10)) = n div 10" using 1 by simp
    then show ?thesis using False
      by (simp add: decimal.simps [of n] digitsVal_app digitsVal_def digit_unat)
  qed
qed

lemma decimal_digits: "\<forall>c\<in>set (decimal n). isDigit c"
proof (induction n rule: decimal.induct)
  case (1 n)
  show ?case
  proof (cases "n < 10")
    case True
    then show ?thesis by (simp add: decimal.simps [of n] digit_isDigit)
  next
    case False
    then show ?thesis using 1 by (simp add: decimal.simps [of n] digit_isDigit)
  qed
qed

lemma decimal_nonempty: "decimal n \<noteq> []"
  by (simp add: decimal.simps [of n])

lemma digitsVal_zeros: "digitsVal (replicate k 0x30 @ m) = digitsVal m"
  by (induction k) (simp_all add: digitsVal_def)

lemma isDigit_facts:
  assumes "isDigit c"
  shows "\<not> isWhiteSpace c" "c \<noteq> 0x2D" "c \<noteq> 0x2B" "c \<noteq> 0x2E"
proof -
  have r: "48 \<le> unat c" "unat c \<le> 57"
    using assms unfolding isDigit_def word_le_nat_alt by simp_all
  show "\<not> isWhiteSpace c"
  proof
    assume "isWhiteSpace c"
    then have "unat c < 48 \<or> 57 < unat c"
      unfolding isWhiteSpace_def word_le_nat_alt by auto
    then show False using r by arith
  qed
  show "c \<noteq> 0x2D" "c \<noteq> 0x2B" "c \<noteq> 0x2E" using r by auto
qed

lemma not_digit_point: "\<not> isDigit 0x2E"
  by (simp add: isDigit_def)

lemma isDigit_zero: "isDigit 0x30"
  by (simp add: isDigit_def)

lemma parseFloat_literal:
  assumes a: "a \<noteq> []" "\<forall>c\<in>set a. isDigit c" and b: "\<forall>c\<in>set b. isDigit c"
  shows "parseFloat ((if neg then [0x2D] else []) @ a @ [0x2E] @ b) =
     JNum ((if neg then - 1 else 1) * (of_nat (digitsVal a) + of_nat (digitsVal b) / 10 ^ length b))"
proof -
  obtain d ds where ad: "a = d # ds" using a(1) by (cases a) auto
  have d: "isDigit d" using a(2) ad by simp
  let ?lit = "(if neg then [0x2D] else []) @ a @ [0x2E] @ b"
  have "\<not> isWhiteSpace 0x2D" by (simp add: isWhiteSpace_def)
  then have ws: "dropWhile isWhiteSpace ?lit = ?lit"
    using isDigit_facts(1) [OF d] by (cases neg) (simp_all add: ad)
  have hdneg: "(?lit \<noteq> [] \<and> hd ?lit = 0x2D) = neg"
    using isDigit_facts(2) [OF d] by (simp add: ad)
  have u: "(if ?lit \<noteq> [] \<and> (hd ?lit = 0x2D \<or> hd ?lit = 0x2B) then tl ?lit else ?lit) = a @ [0x2E] @ b"
    using isDigit_facts(2,3) [OF d] by (simp add: ad)
  have ip: "takeWhile isDigit (a @ [0x2E] @ b) = a"
    using a(2) not_digit_point by (simp add: takeWhile_tail)
  have r: "dropWhile isDigit (a @ [0x2E] @ b) = 0x2E # b"
    using a(2) not_digit_point by (simp add: dropWhile_append3)
  have fp: "takeWhile isDigit b = b" using b by (simp add: takeWhile_eq_all_conv)
  show ?thesis
    unfolding parseFloat_def Let_def ws hdneg u ip r
    using a(1) by (simp add: fp)
qed

lemma parseFloat_toFixed:
  assumes "0 < f"
  shows "parseFloat (toFixed f x) = JNum (roundedTo f x)"
proof -
  define n where "n = nat \<lfloor>\<bar>x\<bar> * 10 ^ f + 1 / 2\<rfloor>"
  define m1 where "m1 = replicate (f + 1 - length (decimal n)) 0x30 @ decimal n"
  define k where "k = length m1"
  define a where "a = take (k - f) m1"
  define b where "b = drop (k - f) m1"
  have k: "f + 1 \<le> k" by (simp add: k_def m1_def)
  have dig: "\<forall>c\<in>set m1. isDigit c"
    using decimal_digits [of n] isDigit_zero by (auto simp: m1_def)
  have "m1 \<noteq> []" using decimal_nonempty [of n] by (simp add: m1_def)
  moreover have "0 < k - f" using k by arith
  ultimately have a1: "a \<noteq> []" by (simp add: a_def)
  have a2: "\<forall>c\<in>set a. isDigit c" unfolding a_def using dig by (meson in_set_takeD)
  have b2: "\<forall>c\<in>set b. isDigit c" unfolding b_def using dig by (meson in_set_dropD)
  have lb: "length b = f" using k by (simp add: b_def k_def)
  have "digitsVal a * 10 ^ length b + digitsVal b = digitsVal (a @ b)"
    by (simp only: digitsVal_app)
  also have "\<dots> = digitsVal m1" by (simp add: a_def b_def)
  also have "\<dots> = n" by (simp only: m1_def digitsVal_zeros digitsVal_decimal)
  finally have val: "digitsVal a * 10 ^ f + digitsVal b = n" using lb by simp
  have "(of_nat (digitsVal a) :: rat) + of_nat (digitsVal b) / 10 ^ f =
        of_nat (digitsVal a * 10 ^ f + digitsVal b) / 10 ^ f"
    by (simp add: add_divide_distrib)
  then have q: "(of_nat (digitsVal a) :: rat) + of_nat (digitsVal b) / 10 ^ length b = of_nat n / 10 ^ f"
    using val lb by simp
  have "toFixed f x = (if x < 0 then [0x2D] else []) @ a @ [0x2E] @ b"
    using assms by (simp add: toFixed_def Let_def a_def b_def k_def m1_def n_def)
  then have "parseFloat (toFixed f x) =
      JNum ((if x < 0 then - 1 else 1) * (of_nat (digitsVal a) + of_nat (digitsVal b) / 10 ^ length b))"
    using parseFloat_literal [OF a1 a2 b2, of "x < 0"] by simp
  then show ?thesis unfolding q by (simp add: roundedTo_def n_def)
qed

lemma roundedTo_near: "\<bar>roundedTo f x - x\<bar> \<le> 1 / (2 * 10 ^ f)"
proof -
  let ?y = "\<bar>x\<bar> * 10 ^ f + 1 / 2"
  have y0: "0 \<le> ?y" by simp
  then have fl0: "0 \<le> \<lfloor>?y\<rfloor>" by simp
  have n: "(of_nat (nat \<lfloor>?y\<rfloor>) :: rat) = of_int \<lfloor>?y\<rfloor>" using fl0 by simp
  have lo: "of_int \<lfloor>?y\<rfloor> \<le> ?y" and hi: "?y < of_int \<lfloor>?y\<rfloor> + 1" by linarith+
  have p: "(0::rat) < 10 ^ f" by simp
  have "\<bar>of_int \<lfloor>?y\<rfloor> - \<bar>x\<bar> * 10 ^ f\<bar> \<le> 1 / 2" using lo hi by linarith
  then have "\<bar>of_int \<lfloor>?y\<rfloor> - \<bar>x\<bar> * 10 ^ f\<bar> / 10 ^ f \<le> (1 / 2) / 10 ^ f"
    using p by (intro divide_right_mono) simp_all
  moreover have "of_int \<lfloor>?y\<rfloor> / 10 ^ f - \<bar>x\<bar> = (of_int \<lfloor>?y\<rfloor> - \<bar>x\<bar> * 10 ^ f) / 10 ^ f"
    by (simp add: diff_divide_distrib)
  then have "\<bar>of_int \<lfloor>?y\<rfloor> / 10 ^ f - \<bar>x\<bar>\<bar> = \<bar>of_int \<lfloor>?y\<rfloor> - \<bar>x\<bar> * 10 ^ f\<bar> / 10 ^ f"
    by (simp only: abs_divide) simp
  ultimately have "\<bar>of_int \<lfloor>?y\<rfloor> / 10 ^ f - \<bar>x\<bar>\<bar> \<le> 1 / (2 * 10 ^ f)"
    by simp
  moreover define F where "F = (of_int \<lfloor>?y\<rfloor> :: rat) / 10 ^ f"
  ultimately have d: "\<bar>F - \<bar>x\<bar>\<bar> \<le> 1 / (2 * 10 ^ f)" by simp
  have r: "roundedTo f x = (if x < 0 then - 1 else 1) * F"
    by (simp only: roundedTo_def n F_def times_divide_eq_right)
  show ?thesis
  proof (cases "x < 0")
    case True
    then have "roundedTo f x - x = - (F - \<bar>x\<bar>)" using r by simp
    then show ?thesis using d by (simp only: abs_minus_cancel)
  next
    case False
    then have "roundedTo f x - x = F - \<bar>x\<bar>" using r by simp
    then show ?thesis using d by simp
  qed
qed

section \<open>GET /api/movies/:movieId/sentiment: the counts\<close>

lemma labels_differ: "js ''positive'' \<noteq> js ''negative''"
  by (simp add: js_def)

lemma count_partition:
  "countSentiment (js ''positive'') rows + countSentiment (js ''negative'') rows +
     int (length (filter (\<lambda>r. sentiment r \<noteq> js ''positive'' \<and> sentiment r \<noteq> js ''negative'') rows))
   = int (length rows)"
  using labels_differ by (induction rows) (auto simp: countSentiment_def)

lemma count_all_iff:
  "countSentiment (js ''positive'') rows + countSentiment (js ''negative'') rows = int (length rows)
   \<longleftrightarrow> (\<forall>r\<in>set rows. sentiment r = js ''positive'' \<or> sentiment r = js ''negative'')"
proof -
  let ?other = "filter (\<lambda>r. sentiment r \<noteq> js ''positive'' \<and> sentiment r \<noteq> js ''negative'') rows"
  have "countSentiment (js ''positive'') rows + countSentiment (js ''negative'') rows = int (length rows)
     \<longleftrightarrow> ?other = []"
    using count_partition [of rows] by auto
  also have "\<dots> \<longleftrightarrow> (\<forall>r\<in>set rows. sentiment r = js ''positive'' \<or> sentiment r = js ''negative'')"
    by (auto simp: filter_empty_conv)
  finally show ?thesis .
qed

lemma statsJson_counts:
  "totalReviews (statsJson rt (aggregateStats rt d mid)) = int (length (reviewsOf d mid))"
  "positiveCount (statsJson rt (aggregateStats rt d mid)) = countSentiment (js ''positive'') (reviewsOf d mid)"
  "negativeCount (statsJson rt (aggregateStats rt d mid)) = countSentiment (js ''negative'') (reviewsOf d mid)"
  by (simp_all add: statsJson_def aggregateStats_def Let_def orZero_def countSentiment_def)

lemma statsOf_movieSentiment:
  "statsOf (movieSentiment e now mid) =
     (case findMovie (DB e) mid of None \<Rightarrow> None
      | Some m \<Rightarrow> Some (statsJson (RT e) (aggregateStats (RT e) (DB e) mid)))"
  by (simp add: statsOf_def movieSentiment_def jsonResponse_def split: option.splits)

lemma movieSentiment_status:
  "status (resp (movieSentiment e now mid)) = (if findMovie (DB e) mid = None then 404 else 200)"
  by (simp add: movieSentiment_def jsonResponse_def split: option.splits)

text \<open>
  C2, as the worker has it. In the statistics of a movie, \<open>totalReviews\<close> counts all
  reviews of the movie, \<open>positiveCount\<close> those whose sentiment is \<open>positive\<close> and
  \<open>negativeCount\<close> those whose sentiment is \<open>negative\<close>: the two counts and the number
  of reviews with any other sentiment add up to \<open>totalReviews\<close>, so their sum is at
  most \<open>totalReviews\<close> and equals it exactly when every review of the movie is
  \<open>positive\<close> or \<open>negative\<close>. The worker stores the sentiment of a request as it comes,
  so this holds in every store, reached or not.
\<close>

theorem stats_counts:
  "statsOf (movieSentiment e now mid) = Some st \<longrightarrow>
     totalReviews st = int (length (reviewsOf (DB e) mid))
   \<and> positiveCount st + negativeCount st +
       int (length (filter (\<lambda>r. sentiment r \<noteq> js ''positive'' \<and> sentiment r \<noteq> js ''negative'')
              (reviewsOf (DB e) mid))) = totalReviews st
   \<and> positiveCount st + negativeCount st \<le> totalReviews st
   \<and> (positiveCount st + negativeCount st = totalReviews st \<longleftrightarrow>
        (\<forall>r\<in>set (reviewsOf (DB e) mid). sentiment r = js ''positive'' \<or> sentiment r = js ''negative''))"
proof
  assume "statsOf (movieSentiment e now mid) = Some st"
  then have st: "st = statsJson (RT e) (aggregateStats (RT e) (DB e) mid)"
    by (simp add: statsOf_movieSentiment split: option.splits)
  let ?rows = "reviewsOf (DB e) mid"
  have part: "positiveCount st + negativeCount st +
       int (length (filter (\<lambda>r. sentiment r \<noteq> js ''positive'' \<and> sentiment r \<noteq> js ''negative'') ?rows))
       = totalReviews st"
    unfolding st statsJson_counts by (rule count_partition)
  then have le: "positiveCount st + negativeCount st \<le> totalReviews st" by linarith
  have iff: "positiveCount st + negativeCount st = totalReviews st \<longleftrightarrow>
        (\<forall>r\<in>set ?rows. sentiment r = js ''positive'' \<or> sentiment r = js ''negative'')"
    unfolding st statsJson_counts by (rule count_all_iff)
  show "totalReviews st = int (length ?rows)
   \<and> positiveCount st + negativeCount st +
       int (length (filter (\<lambda>r. sentiment r \<noteq> js ''positive'' \<and> sentiment r \<noteq> js ''negative'') ?rows))
       = totalReviews st
   \<and> positiveCount st + negativeCount st \<le> totalReviews st
   \<and> (positiveCount st + negativeCount st = totalReviews st \<longleftrightarrow>
        (\<forall>r\<in>set ?rows. sentiment r = js ''positive'' \<or> sentiment r = js ''negative''))"
    using part le iff by (simp add: st statsJson_counts(1))
qed

lemma sentimentPath_segment:
  assumes "mid \<noteq> []" and "0x2F \<notin> set mid"
  shows "sentimentPath (js ''/api/movies/'' @ mid @ js ''/sentiment'') = Some mid"
proof -
  have tw: "takeWhile (\<lambda>c. c \<noteq> 0x2F) (mid @ js ''/sentiment'') = mid"
    using assms(2) by (auto simp: js_def takeWhile_tail)
  have dw: "dropWhile (\<lambda>c. c \<noteq> 0x2F) (mid @ js ''/sentiment'') = js ''/sentiment''"
    using assms(2) by (auto simp: js_def dropWhile_append3)
  show ?thesis
    using assms(1) by (simp add: sentimentPath_def Let_def tw dw)
qed

lemma fetch_sentiment_route:
  assumes "mid \<noteq> []" and "0x2F \<notin> set mid"
  shows "fetch e now \<lparr>req_method = js ''GET'',
      req_path = js ''/api/movies/'' @ mid @ js ''/sentiment'', req_q = q, req_body = b\<rparr> =
    movieSentiment e now mid"
proof -
  have 1: "js ''/api/movies/'' @ mid @ js ''/sentiment'' \<noteq> js ''/api/predict''"
    by (simp add: js_def)
  have 2: "js ''/api/movies/'' @ mid @ js ''/sentiment'' \<noteq> js ''/api/reviews''"
    by (simp add: js_def)
  have 3: "js ''GET'' \<noteq> js ''OPTIONS''" by (simp add: js_def)
  show ?thesis
    using sentimentPath_segment [OF assms] 1 2 3
    by (simp add: fetch_def)
qed

lemma fetch_sentiment:
  assumes "mid \<noteq> []" and "0x2F \<notin> set mid"
  shows "fetch e now (getSentiment mid) = movieSentiment e now mid"
proof -
  have 1: "js ''/api/movies/'' @ mid @ js ''/sentiment'' \<noteq> js ''/api/predict''"
    by (simp add: js_def)
  have 2: "js ''/api/movies/'' @ mid @ js ''/sentiment'' \<noteq> js ''/api/reviews''"
    by (simp add: js_def)
  have 3: "js ''GET'' \<noteq> js ''OPTIONS''" by (simp add: js_def)
  show ?thesis
    using sentimentPath_segment [OF assms] 1 2 3
    by (simp add: fetch_def getSentiment_def)
qed

lemma fetch_sentiment_shawshank:
  "fetch e now (getSentiment (js ''tt0111161'')) = movieSentiment e now (js ''tt0111161'')"
  by (rule fetch_sentiment) (simp_all add: js_def)

lemma envOf_DB: "DB (envOf d) = d"
  by (simp add: envOf_def)

lemma envOf_RT: "RT (envOf d) = exactRuntime"
  by (simp add: envOf_def)

lemma scenarioA_find: "findMovie (DB (envOf scenarioA)) (js ''tt0111161'') = Some shawshank"
  by code_simp

lemma scenarioA_rows:
  "aggregateStats exactRuntime (DB (envOf scenarioA)) (js ''tt0111161'') =
     \<lparr>total_reviews = 1, positive_count = Some 1, negative_count = Some 0,
      avg_confidence = Some (19 / 20)\<rparr>"
  by code_simp

lemma scenarioA_json:
  "statsJson exactRuntime \<lparr>total_reviews = 1, positive_count = Some 1, negative_count = Some 0,
      avg_confidence = Some (19 / 20)\<rparr> =
     \<lparr>totalReviews = 1, positiveCount = 1, negativeCount = 0,
      positivePercentage = JStr (js ''100.0''), averageConfidence = JNum (19 / 20)\<rparr>"
  by code_simp

lemma scenarioA_stats:
  "statsOf (movieSentiment (envOf scenarioA) 100 (js ''tt0111161'')) =
     Some \<lparr>totalReviews = 1, positiveCount = 1, negativeCount = 0,
       positivePercentage = JStr (js ''100.0''), averageConfidence = JNum (19 / 20)\<rparr>"
  by (simp add: statsOf_movieSentiment envOf_RT scenarioA_find scenarioA_rows scenarioA_json)

theorem stats_counts_witness:
  "positiveCount (the (statsOf (movieSentiment (envOf scenarioA) 100 (js ''tt0111161'')))) +
   negativeCount (the (statsOf (movieSentiment (envOf scenarioA) 100 (js ''tt0111161'')))) =
   totalReviews (the (statsOf (movieSentiment (envOf scenarioA) 100 (js ''tt0111161''))))
   \<and> totalReviews (the (statsOf (movieSentiment (envOf scenarioA) 100 (js ''tt0111161'')))) = 1"
  using stats_counts [of "envOf scenarioA" 100 "js ''tt0111161''"
      "the (statsOf (movieSentiment (envOf scenarioA) 100 (js ''tt0111161'')))"]
  by (simp add: scenarioA_stats)

lemma neutral_find: "findMovie (DB (envOf neutralSaved)) (js ''tt0111161'') = Some shawshank"
  by code_simp

lemma neutral_rows:
  "aggregateStats exactRuntime (DB (envOf neutralSaved)) (js ''tt0111161'') =
     \<lparr>total_reviews = 1, positive_count = Some 0, negative_count = Some 0,
      avg_confidence = Some (9 / 10)\<rparr>"
  by code_simp

lemma neutral_json:
  "statsJson exactRuntime \<lparr>total_reviews = 1, positive_count = Some 0, negative_count = Some 0,
      avg_confidence = Some (9 / 10)\<rparr> =
     \<lparr>totalReviews = 1, positiveCount = 0, negativeCount = 0,
      positivePercentage = JStr (js ''0.0''), averageConfidence = JNum (9 / 10)\<rparr>"
  by code_simp

theorem stats_counts_counterexample:
  "map sentiment (reviews neutralSaved) = [js ''neutral'']
   \<and> statsOf (fetch (envOf neutralSaved) 100 (getSentiment (js ''tt0111161''))) =
     Some \<lparr>totalReviews = 1, positiveCount = 0, negativeCount = 0,
       positivePercentage = JStr (js ''0.0''), averageConfidence = JNum (9 / 10)\<rparr>"
proof -
  have "map sentiment (reviews neutralSaved) = [js ''neutral'']" by code_simp
  then show ?thesis
    by (simp add: fetch_sentiment_shawshank statsOf_movieSentiment envOf_RT neutral_find
        neutral_rows neutral_json)
qed

section \<open>GET /api/movies/:movieId/sentiment: percentage and average\<close>
















section \<open>POST /api/predict: what the classifier returns\<close>

lemma predict_valid:
  assumes "\<not> falsy (b_text body)" and "trim (the (b_text body)) \<noteq> []"
  shows "predict e body =
     \<lparr>resp =
        (case AI e (cleanText (the (b_text body))) of
           AIThrows msg \<Rightarrow> internalError (ClassifierThrew msg)
         | AIReturns [] \<Rightarrow> internalError ClassifierResultUnreadable
         | AIReturns (item # _) \<Rightarrow>
             (case label item of
                None \<Rightarrow> internalError ClassifierResultUnreadable
              | Some l \<Rightarrow>
                  (case score item of
                     None \<Rightarrow> internalError ClassifierResultUnreadable
                   | Some sc \<Rightarrow>
                       jsonResponse
                         (PredictionJson (the (b_text body)) (toLowerCase (RT e) l)
                            (parseFloat (toFixed 4 sc)) (js ''distilbert-sst-2''))
                         200))),
      store = DB e, aiCalls = [cleanText (the (b_text body))]\<rparr>"
  using assms by (simp add: predict_def Let_def)

text \<open>
  C3, as the worker has it. For a text that passes the validation of
  \<open>POST /api/predict\<close>: when the classifier throws, returns no item, or returns a first
  item without label or without score, the answer is 500. When the first item has a
  label and a score, the answer is 200 and carries what \<open>toLowerCase\<close> makes of the
  label (for a label of ASCII code units: the label with its letters \<open>A\<close> to \<open>Z\<close>
  lowered) and the score rounded to four decimals (at most 0.00005 away from the
  score), whatever they are: a score is not compared with 0 or 1 and a label is not
  compared with \<open>positive\<close> or \<open>negative\<close>.
\<close>

theorem predict_classifier_result:
  "\<not> falsy (b_text body) \<and> trim (the (b_text body)) \<noteq> [] \<longrightarrow>
   (let out = fetch e now \<lparr>req_method = js ''POST'', req_path = js ''/api/predict'',
                req_q = q, req_body = Some body\<rparr>;
        answer = AI e (cleanText (the (b_text body)))
    in ((\<exists>msg. answer = AIThrows msg) \<or> answer = AIReturns [] \<or>
        (\<exists>item rest. answer = AIReturns (item # rest) \<and> (label item = None \<or> score item = None))
        \<longrightarrow> status (resp out) = 500)
     \<and> (\<forall>item rest l sc.
          answer = AIReturns (item # rest) \<and> label item = Some l \<and> score item = Some sc \<longrightarrow>
          resp out = jsonResponse
            (PredictionJson (the (b_text body)) (toLowerCase (RT e) l) (JNum (roundedTo 4 sc))
               (js ''distilbert-sst-2'')) 200
          \<and> \<bar>roundedTo 4 sc - sc\<bar> \<le> 1 / 20000)
     \<and> (\<forall>l. list_all (\<lambda>c. c < 0x80) l \<longrightarrow>
          toLowerCase (RT e) l = map (\<lambda>c. if 0x41 \<le> c \<and> c \<le> 0x5A then c + 0x20 else c) l))"
proof
  assume v: "\<not> falsy (b_text body) \<and> trim (the (b_text body)) \<noteq> []"
  define answer where "answer = AI e (cleanText (the (b_text body)))"
  have out: "resp (predict e body) =
        (case answer of
           AIThrows msg \<Rightarrow> internalError (ClassifierThrew msg)
         | AIReturns [] \<Rightarrow> internalError ClassifierResultUnreadable
         | AIReturns (item # _) \<Rightarrow>
             (case label item of
                None \<Rightarrow> internalError ClassifierResultUnreadable
              | Some l \<Rightarrow>
                  (case score item of
                     None \<Rightarrow> internalError ClassifierResultUnreadable
                   | Some sc \<Rightarrow>
                       jsonResponse
                         (PredictionJson (the (b_text body)) (toLowerCase (RT e) l)
                            (parseFloat (toFixed 4 sc)) (js ''distilbert-sst-2''))
                         200)))"
    using v by (simp add: predict_valid answer_def)
  have ascii: "\<forall>l. list_all (\<lambda>c. c < 0x80) l \<longrightarrow>
      toLowerCase (RT e) l = map (\<lambda>c. if 0x41 \<le> c \<and> c \<le> 0x5A then c + 0x20 else c) l"
    by (simp add: toLowerCase_def)
  have bad: "(\<exists>msg. answer = AIThrows msg) \<or> answer = AIReturns [] \<or>
        (\<exists>item rest. answer = AIReturns (item # rest) \<and> (label item = None \<or> score item = None))
        \<longrightarrow> status (resp (predict e body)) = 500"
    unfolding out by (auto simp: internalError_def jsonResponse_def split: option.splits)
  have good: "\<forall>item rest l sc.
          answer = AIReturns (item # rest) \<and> label item = Some l \<and> score item = Some sc \<longrightarrow>
          resp (predict e body) = jsonResponse
            (PredictionJson (the (b_text body)) (toLowerCase (RT e) l) (JNum (roundedTo 4 sc))
               (js ''distilbert-sst-2'')) 200
          \<and> \<bar>roundedTo 4 sc - sc\<bar> \<le> 1 / 20000"
  proof (intro allI impI, elim conjE)
    fix item rest l sc
    assume "answer = AIReturns (item # rest)" "label item = Some l" "score item = Some sc"
    then have "resp (predict e body) = jsonResponse
            (PredictionJson (the (b_text body)) (toLowerCase (RT e) l) (JNum (roundedTo 4 sc))
               (js ''distilbert-sst-2'')) 200"
      unfolding out by (simp add: parseFloat_toFixed)
    moreover have "\<bar>roundedTo 4 sc - sc\<bar> \<le> 1 / 20000"
      using roundedTo_near [of 4 sc] by simp
    ultimately show "resp (predict e body) = jsonResponse
            (PredictionJson (the (b_text body)) (toLowerCase (RT e) l) (JNum (roundedTo 4 sc))
               (js ''distilbert-sst-2'')) 200
          \<and> \<bar>roundedTo 4 sc - sc\<bar> \<le> 1 / 20000" by simp
  qed
  show "let out = fetch e now \<lparr>req_method = js ''POST'', req_path = js ''/api/predict'',
                req_q = q, req_body = Some body\<rparr>;
        answer = AI e (cleanText (the (b_text body)))
    in ((\<exists>msg. answer = AIThrows msg) \<or> answer = AIReturns [] \<or>
        (\<exists>item rest. answer = AIReturns (item # rest) \<and> (label item = None \<or> score item = None))
        \<longrightarrow> status (resp out) = 500)
     \<and> (\<forall>item rest l sc.
          answer = AIReturns (item # rest) \<and> label item = Some l \<and> score item = Some sc \<longrightarrow>
          resp out = jsonResponse
            (PredictionJson (the (b_text body)) (toLowerCase (RT e) l) (JNum (roundedTo 4 sc))
               (js ''distilbert-sst-2'')) 200
          \<and> \<bar>roundedTo 4 sc - sc\<bar> \<le> 1 / 20000)
     \<and> (\<forall>l. list_all (\<lambda>c. c < 0x80) l \<longrightarrow>
          toLowerCase (RT e) l = map (\<lambda>c. if 0x41 \<le> c \<and> c \<le> 0x5A then c + 0x20 else c) l)"
    unfolding Let_def fetch_predict answer_def [symmetric] using bad good ascii by blast
qed

theorem predict_classifier_result_witness:
  "resp (fetch demoEnv 0 (postPredict (Some (js ''Great movie!!!'')))) =
     jsonResponse (PredictionJson (js ''Great movie!!!'') (js ''positive'') (JNum (9 / 10))
       (js ''distilbert-sst-2'')) 200
   \<and> status (resp (fetch \<lparr>DB = catalog, AI = brokenAI, RT = exactRuntime\<rparr> 0
        (postPredict (Some (js ''Great movie!!!''))))) = 500"
proof -
  let ?body = "\<lparr>b_movieId = None, b_text = Some (js ''Great movie!!!''), b_sentiment = None,
      b_confidence = None\<rparr>"
  let ?item = "\<lparr>label = Some (js ''POSITIVE''), score = Some (9 / 10)\<rparr>"
  have "trim (js ''Great movie!!!'') \<noteq> []" by code_simp
  then have v: "\<not> falsy (b_text ?body) \<and> trim (the (b_text ?body)) \<noteq> []"
    by (simp add: falsy_def js_def)
  have l: "toLowerCase (RT demoEnv) (js ''POSITIVE'') = js ''positive''"
    by (simp add: toLowerCase_def js_def)
  have "\<lfloor>\<bar>9 / 10\<bar> * 10 ^ 4 + 1 / 2 :: rat\<rfloor> = 9000" by (simp add: floor_eq_iff)
  then have r: "roundedTo 4 (9 / 10) = 9 / 10" by (simp add: roundedTo_def)
  have a: "AI demoEnv (cleanText (the (b_text ?body))) = AIReturns (?item # []) \<and>
      label ?item = Some (js ''POSITIVE'') \<and> score ?item = Some (9 / 10)"
    by (simp add: demoEnv_def demoAI_def)
  have b: "AI \<lparr>DB = catalog, AI = brokenAI, RT = exactRuntime\<rparr> (cleanText (the (b_text ?body))) =
      AIReturns (\<lparr>label = Some (js ''POSITIVE''), score = None\<rparr> # []) \<and>
      (label \<lparr>label = Some (js ''POSITIVE''), score = None\<rparr> = None \<or>
       score \<lparr>label = Some (js ''POSITIVE''), score = (None :: rat option)\<rparr> = None)"
    by (simp add: brokenAI_def)
  have 1: "resp (fetch demoEnv 0 (postPredict (Some (js ''Great movie!!!'')))) =
     jsonResponse (PredictionJson (js ''Great movie!!!'') (js ''positive'') (JNum (9 / 10))
       (js ''distilbert-sst-2'')) 200"
    using predict_classifier_result [of ?body demoEnv 0 None, unfolded Let_def, THEN mp, OF v,
        THEN conjunct2, THEN conjunct1, rule_format, OF a]
    by (simp add: postPredict_def l r)
  have 2: "status (resp (fetch \<lparr>DB = catalog, AI = brokenAI, RT = exactRuntime\<rparr> 0
        (postPredict (Some (js ''Great movie!!!''))))) = 500"
    using predict_classifier_result [of ?body "\<lparr>DB = catalog, AI = brokenAI, RT = exactRuntime\<rparr>" 0 None,
        unfolded Let_def, THEN mp, OF v, THEN conjunct1] b
    unfolding postPredict_def by blast
  show ?thesis using 1 2 by blast
qed

theorem predict_classifier_result_counterexample:
  "resp (fetch \<lparr>DB = catalog, AI = oddAI, RT = exactRuntime\<rparr> 0 (postPredict (Some (js ''Great movie!!!'')))) =
     jsonResponse (PredictionJson (js ''Great movie!!!'') (js ''neutral'') (JNum (3 / 2))
       (js ''distilbert-sst-2'')) 200"
proof -
  have t: "trim (js ''Great movie!!!'') \<noteq> []" by code_simp
  have l: "toLowerCase exactRuntime (js ''NEUTRAL'') = js ''neutral''"
    by (simp add: toLowerCase_def js_def)
  have "\<lfloor>\<bar>3 / 2\<bar> * 10 ^ 4 + 1 / 2 :: rat\<rfloor> = 15000" by (simp add: floor_eq_iff)
  then have "roundedTo 4 (3 / 2) = 3 / 2" by (simp add: roundedTo_def)
  then have r: "parseFloat (toFixed 4 (3 / 2)) = JNum (3 / 2)"
    by (simp add: parseFloat_toFixed)
  have "fetch \<lparr>DB = catalog, AI = oddAI, RT = exactRuntime\<rparr> 0 (postPredict (Some (js ''Great movie!!!''))) =
      predict \<lparr>DB = catalog, AI = oddAI, RT = exactRuntime\<rparr> \<lparr>b_movieId = None, b_text = Some (js ''Great movie!!!''),
        b_sentiment = None, b_confidence = None\<rparr>"
    by (simp add: postPredict_def fetch_predict)
  then show ?thesis
    using t l r by (simp add: predict_def falsy_def Let_def oddAI_def js_def)
qed

section \<open>GET /api/movies/:movieId/sentiment: the trend\<close>

lemma trendOf_movieSentiment:
  "trendOf (movieSentiment e now mid) =
     (case findMovie (DB e) mid of None \<Rightarrow> None | Some m \<Rightarrow> Some (trend (DB e) now mid))"
  by (simp add: trendOf_def movieSentiment_def jsonResponse_def split: option.splits)

lemma trend_dates:
  "map date (trend d now mid) =
     rev (sort (remdups (map (\<lambda>r. DATE (created_at r)) (trendRows d now mid))))"
  by (simp add: trend_def Let_def comp_def)

lemma trend_distinct: "distinct (map date (trend d now mid))"
  by (simp add: trend_dates)

lemma trend_descending: "sorted (rev (map date (trend d now mid)))"
  by (simp add: trend_dates)

lemma trend_date_set:
  "set (map date (trend d now mid)) =
     {DATE (created_at r) | r. r \<in> set (reviews d) \<and> movie_id r = mid \<and> inWindow now r}"
  unfolding trend_dates by (auto simp: trendRows_def reviewsOf_def)

lemma onDate_window:
  assumes "DATE now - 30 \<le> dt"
  shows "onDate dt (trendRows d now mid) = onDate dt (reviewsOf d mid)"
proof -
  have "\<And>r. DATE (created_at r) = dt \<Longrightarrow> inWindow now r"
    using assms by (simp add: inWindow_def)
  then show ?thesis
    unfolding onDate_def trendRows_def by (auto intro: filter_cong)
qed

lemma trend_row:
  assumes "row \<in> set (trend d now mid)"
  shows "DATE now - 30 \<le> date row"
    and "positive row = countSentiment (js ''positive'') (onDate (date row) (reviewsOf d mid))"
    and "negative row = countSentiment (js ''negative'') (onDate (date row) (reviewsOf d mid))"
    and "onDate (date row) (reviewsOf d mid) \<noteq> []"
proof -
  let ?rows = "trendRows d now mid"
  obtain dt where dt: "dt \<in> set (map (\<lambda>r. DATE (created_at r)) ?rows)"
    and row: "row = \<lparr>date = dt, positive = countSentiment (js ''positive'') (onDate dt ?rows),
                     negative = countSentiment (js ''negative'') (onDate dt ?rows)\<rparr>"
    using assms by (auto simp: trend_def Let_def)
  from dt obtain r where r: "r \<in> set ?rows" "DATE (created_at r) = dt" by auto
  then have w: "DATE now - 30 \<le> dt" by (auto simp: trendRows_def inWindow_def)
  show "DATE now - 30 \<le> date row" using w by (simp add: row)
  show "positive row = countSentiment (js ''positive'') (onDate (date row) (reviewsOf d mid))"
    by (simp add: row onDate_window [OF w])
  show "negative row = countSentiment (js ''negative'') (onDate (date row) (reviewsOf d mid))"
    by (simp add: row onDate_window [OF w])
  have "r \<in> set (onDate dt ?rows)" using r by (simp add: onDate_def)
  then show "onDate (date row) (reviewsOf d mid) \<noteq> []"
    by (auto simp: row onDate_window [OF w])
qed

text \<open>
  C8. For every movie of the catalog the statistics response is a success and carries
  the trend. The trend has exactly one entry for each day on which the movie has a
  review inside the window, the day being no earlier than 30 days before today: the
  dates of the entries are distinct, they are exactly those days, and they come latest
  first. Every entry carries the number of the movie's reviews of that day whose
  sentiment is \<open>positive\<close> and the number of those whose sentiment is \<open>negative\<close>, and
  at least one review of the movie falls on its day: a day without reviews has no
  entry.
\<close>

theorem trend_one_entry_per_day:
  "(trendOf (movieSentiment e now mid) = Some tr \<longrightarrow>
     distinct (map date tr)
   \<and> set (map date tr) =
       {DATE (created_at r) | r. r \<in> set (reviews (DB e)) \<and> movie_id r = mid \<and> inWindow now r}
   \<and> sorted (rev (map date tr))
   \<and> (\<forall>row\<in>set tr.
        DATE now - 30 \<le> date row
      \<and> positive row = countSentiment (js ''positive'') (onDate (date row) (reviewsOf (DB e) mid))
      \<and> negative row = countSentiment (js ''negative'') (onDate (date row) (reviewsOf (DB e) mid))
      \<and> onDate (date row) (reviewsOf (DB e) mid) \<noteq> []))
   \<and> (findMovie (DB e) mid \<noteq> None \<longrightarrow>
        status (resp (movieSentiment e now mid)) = 200 \<and>
        trendOf (movieSentiment e now mid) = Some (trend (DB e) now mid))
   \<and> (mid \<noteq> [] \<and> 0x2F \<notin> set mid \<longrightarrow>
        fetch e now \<lparr>req_method = js ''GET'',
          req_path = js ''/api/movies/'' @ mid @ js ''/sentiment'', req_q = q, req_body = b\<rparr> =
        movieSentiment e now mid)"
proof (intro conjI impI)
  assume "trendOf (movieSentiment e now mid) = Some tr"
  then have tr: "tr = trend (DB e) now mid"
    by (simp add: trendOf_movieSentiment split: option.splits)
  show "distinct (map date tr)" unfolding tr by (rule trend_distinct)
  show "set (map date tr) =
       {DATE (created_at r) | r. r \<in> set (reviews (DB e)) \<and> movie_id r = mid \<and> inWindow now r}"
    unfolding tr by (rule trend_date_set)
  show "sorted (rev (map date tr))" unfolding tr by (rule trend_descending)
  show "\<forall>row\<in>set tr.
        DATE now - 30 \<le> date row
      \<and> positive row = countSentiment (js ''positive'') (onDate (date row) (reviewsOf (DB e) mid))
      \<and> negative row = countSentiment (js ''negative'') (onDate (date row) (reviewsOf (DB e) mid))
      \<and> onDate (date row) (reviewsOf (DB e) mid) \<noteq> []"
    unfolding tr using trend_row [of _ "DB e" now mid] by blast
next
  assume "findMovie (DB e) mid \<noteq> None"
  then show "status (resp (movieSentiment e now mid)) = 200"
    by (simp add: movieSentiment_status)
next
  assume "findMovie (DB e) mid \<noteq> None"
  then show "trendOf (movieSentiment e now mid) = Some (trend (DB e) now mid)"
    by (auto simp: trendOf_movieSentiment)
next
  assume "mid \<noteq> [] \<and> 0x2F \<notin> set mid"
  then show "fetch e now \<lparr>req_method = js ''GET'',
          req_path = js ''/api/movies/'' @ mid @ js ''/sentiment'', req_q = q, req_body = b\<rparr> =
        movieSentiment e now mid"
    using fetch_sentiment_route [of mid e now q b] by blast
qed

lemma trendDemo_rows:
  "map (\<lambda>r. (movie_id r, sentiment r, created_at r)) (reviews trendDemo) =
     [(js ''tt0111161'', js ''positive'', 5184000), (js ''tt0111161'', js ''positive'', 8553605),
      (js ''tt0111161'', js ''negative'', 8640000), (js ''tt0111161'', js ''positive'', 8647200)]"
  by (simp add: trendDemo_def saveAt_def envOf_def postReview_def fetch_def reviewBody_def
      saveReview_def falsy_def findMovie_def catalog_def shawshank_def up_def insertReview_def
      Let_def js_def)

lemma trendDemo_trend:
  "trend trendDemo 8650000 (js ''tt0111161'') =
     [\<lparr>date = 100, positive = 1, negative = 1\<rparr>, \<lparr>date = 99, positive = 1, negative = 0\<rparr>]"
  by (simp add: trend_def trendRows_def reviewsOf_def inWindow_def DATE_def onDate_def
      countSentiment_def Let_def trendDemo_def saveAt_def envOf_def postReview_def fetch_def
      reviewBody_def saveReview_def falsy_def findMovie_def catalog_def shawshank_def up_def
      insertReview_def js_def)

lemma trendDemo_find: "findMovie trendDemo (js ''tt0111161'') = Some shawshank"
  by (simp add: trendDemo_def saveAt_def envOf_def postReview_def fetch_def
      reviewBody_def saveReview_def falsy_def findMovie_def catalog_def shawshank_def up_def
      insertReview_def Let_def js_def)

lemma trendDemo_trendOf:
  "trendOf (movieSentiment (envOf trendDemo) 8650000 (js ''tt0111161'')) =
     Some [\<lparr>date = 100, positive = 1, negative = 1\<rparr>, \<lparr>date = 99, positive = 1, negative = 0\<rparr>]"
  by (simp add: trendOf_movieSentiment envOf_DB trendDemo_find trendDemo_trend)

theorem trend_one_entry_per_day_witness:
  "trendOf (fetch (envOf trendDemo) 8650000 (getSentiment (js ''tt0111161''))) =
     Some [\<lparr>date = 100, positive = 1, negative = 1\<rparr>, \<lparr>date = 99, positive = 1, negative = 0\<rparr>]
   \<and> status (resp (fetch (envOf trendDemo) 8650000 (getSentiment (js ''tt0111161'')))) = 200
   \<and> distinct (map date
        [\<lparr>date = 100, positive = 1, negative = 1\<rparr>, \<lparr>date = 99, positive = 1, negative = 0\<rparr>])
   \<and> sorted (rev (map date
        [\<lparr>date = 100, positive = 1, negative = 1\<rparr>, \<lparr>date = 99, positive = 1, negative = 0\<rparr>]))
   \<and> onDate 100 (reviewsOf trendDemo (js ''tt0111161'')) \<noteq> []"
proof -
  note t = trend_one_entry_per_day [of "envOf trendDemo" 8650000 "js ''tt0111161''"
      "[\<lparr>date = 100, positive = 1, negative = 1\<rparr>, \<lparr>date = 99, positive = 1, negative = 0\<rparr>]"
      None None]
  have f: "findMovie (DB (envOf trendDemo)) (js ''tt0111161'') \<noteq> None"
    by (simp add: envOf_DB trendDemo_find)
  have m: "js ''tt0111161'' \<noteq> [] \<and> 0x2F \<notin> set (js ''tt0111161'')"
    by (simp add: js_def)
  have 1: "fetch (envOf trendDemo) 8650000 (getSentiment (js ''tt0111161'')) =
      movieSentiment (envOf trendDemo) 8650000 (js ''tt0111161'')"
    using t [THEN conjunct2, THEN conjunct2, THEN mp, OF m] by (simp only: getSentiment_def)
  have 2: "status (resp (movieSentiment (envOf trendDemo) 8650000 (js ''tt0111161''))) = 200"
    using t [THEN conjunct2, THEN conjunct1, THEN mp, OF f] by blast
  have 3: "distinct (map date
        [\<lparr>date = 100, positive = 1, negative = 1\<rparr>, \<lparr>date = 99, positive = 1, negative = 0\<rparr>])
     \<and> sorted (rev (map date
        [\<lparr>date = 100, positive = 1, negative = 1\<rparr>, \<lparr>date = 99, positive = 1, negative = 0\<rparr>]))
     \<and> onDate 100 (reviewsOf trendDemo (js ''tt0111161'')) \<noteq> []"
    using t [THEN conjunct1, THEN mp, OF trendDemo_trendOf] by (simp add: envOf_DB)
  show ?thesis using 1 2 3 trendDemo_trendOf by simp
qed

section \<open>GET /api/movies: the catalog search\<close>

lemma like_percent_all: "like [37] t"
  by (induction t) simp_all

lemma like_literal_prefix:
  "noWildcard qs \<Longrightarrow> like (qs @ [37]) t \<longleftrightarrow> prefixFold qs t"
proof (induction qs arbitrary: t)
  case Nil
  then show ?case by (simp add: like_percent_all prefixFold_def)
next
  case (Cons p ps)
  then have nw: "noWildcard ps" and p: "p \<noteq> 37" "p \<noteq> 95" by (auto simp: noWildcard_def)
  show ?case
  proof (cases t)
    case Nil
    then show ?thesis using p by (simp add: prefixFold_def)
  next
    case (Cons c cs)
    then show ?thesis using p Cons.IH [OF nw, of cs] by (auto simp: prefixFold_def)
  qed
qed

lemma like_contains:
  "noWildcard qs \<Longrightarrow> like (likePattern qs) t \<longleftrightarrow> containsFold qs t"
proof (induction t)
  case Nil
  then show ?case
    using like_literal_prefix [of qs "[]"] by (simp add: likePattern_def prefixFold_def)
next
  case (Cons c cs)
  then show ?case
    using like_literal_prefix [of qs "c # cs"] by (simp add: likePattern_def)
qed

lemma fetch_movies:
  "fetch e now \<lparr>req_method = js ''GET'', req_path = js ''/api/movies'', req_q = q,
      req_body = b\<rparr> = listMovies e q"
proof -
  have "sentimentPath (js ''/api/movies'') = None"
    by (simp add: sentimentPath_def js_def)
  then show ?thesis by (simp add: fetch_def js_def)
qed

lemma take_sorted_titles: "sorted (map title (take n (sort_key title ms)))"
proof -
  have "sorted (take n (map title (sort_key title ms)))"
    by (intro sorted_wrt_take) simp
  then show ?thesis by (simp add: take_map)
qed

lemma utf8Length_ascii: "list_all (\<lambda>c. c < 128) t \<Longrightarrow> utf8Length t = length t"
  by (induction t) (simp_all add: utf8Length_def)

lemma utf8Length_pattern: "utf8Length (likePattern qs) = utf8Length qs + 2"
  by (simp add: utf8Length_def likePattern_def)

lemma searchMovies_listing:
  "q = None \<or> q = Some [] \<Longrightarrow> searchMovies d q = Inr (take 50 (sort_key title (movies d)))"
  by (auto simp: searchMovies_def)

lemma searchMovies_refused:
  "q \<noteq> None \<Longrightarrow> q \<noteq> Some [] \<Longrightarrow> movies d \<noteq> [] \<Longrightarrow>
   likeLimit < utf8Length (likePattern (the q)) \<Longrightarrow>
   searchMovies d q = Inl LikePatternTooComplex"
  by (cases q) (simp_all add: searchMovies_def)

lemma searchMovies_query:
  "q \<noteq> None \<Longrightarrow> q \<noteq> Some [] \<Longrightarrow>
   \<not> (movies d \<noteq> [] \<and> likeLimit < utf8Length (likePattern (the q))) \<Longrightarrow>
   searchMovies d q =
     Inr (take 20 (sort_key title (filter (\<lambda>m. like (likePattern (the q)) (title m)) (movies d))))"
  by (cases q) (simp_all add: searchMovies_def)

text \<open>
  C9, as the worker has it. \<open>GET /api/movies\<close> leaves the store as it was. Without a
  query, or with the empty query, it answers 200 with the first 50 entries of the catalog
  in the order of their titles (all of them when there are fewer) and the length of that
  list. With a query it binds the pattern \<open>%query%\<close> to \<open>LIKE\<close>. When the catalog has a
  row and the pattern is longer than 50 bytes, the store refuses the statement and the
  answer is 500; so a query of 49 ASCII characters or more fails on every catalog that is
  not empty. Otherwise the answer is 200 with the first 20 of the entries whose title
  matches the pattern, in the order of their titles (all of them when there are at most
  20), and the length of that list; the list may be empty. For a query free of the
  wildcards \<open>%\<close> and \<open>_\<close> a title matches exactly when it contains the query, the ASCII
  letters compared without regard to case.
\<close>

theorem searchMovies_like:
  "(let out = fetch e now \<lparr>req_method = js ''GET'', req_path = js ''/api/movies'',
                req_q = q, req_body = b\<rparr>;
        listing = (q = None \<or> q = Some []);
        refused = (\<not> listing \<and> movies (DB e) \<noteq> [] \<and>
                   likeLimit < utf8Length (likePattern (the q)));
        matching = filter (\<lambda>m. like (likePattern (the q)) (title m)) (movies (DB e))
    in store out = DB e
     \<and> (refused \<longrightarrow> resp out = internalError (QueryFailed LikePatternTooComplex))
     \<and> (\<not> refused \<longrightarrow>
          (\<exists>res. resp out = jsonResponse (MoviesJson res (length res)) 200
             \<and> sorted (map title res) \<and> set res \<subseteq> set (movies (DB e))
             \<and> (listing \<longrightarrow> res = take 50 (sort_key title (movies (DB e))) \<and>
                   length res = min 50 (length (movies (DB e))))
             \<and> (\<not> listing \<longrightarrow> res = take 20 (sort_key title matching) \<and>
                   length res = min 20 (length matching) \<and> set res \<subseteq> set matching \<and>
                   (length matching \<le> 20 \<longrightarrow> set res = set matching))))
     \<and> (noWildcard qs \<longrightarrow> like (likePattern qs) t = containsFold qs t)
     \<and> likeLimit = 50 \<and> utf8Length (likePattern qs) = utf8Length qs + 2
     \<and> (list_all (\<lambda>c. c < 128) qs \<longrightarrow> utf8Length qs = length qs))"
proof -
  define listing where "listing \<longleftrightarrow> q = None \<or> q = Some []"
  define refused where
    "refused \<longleftrightarrow> \<not> listing \<and> movies (DB e) \<noteq> [] \<and> likeLimit < utf8Length (likePattern (the q))"
  define matching where
    "matching = filter (\<lambda>m. like (likePattern (the q)) (title m)) (movies (DB e))"
  have st: "store (listMovies e q) = DB e" by (rule listMovies_store)
  have ref: "refused \<longrightarrow> resp (listMovies e q) = internalError (QueryFailed LikePatternTooComplex)"
  proof
    assume refused
    then have "searchMovies (DB e) q = Inl LikePatternTooComplex"
      unfolding refused_def listing_def by (intro searchMovies_refused) simp_all
    then show "resp (listMovies e q) = internalError (QueryFailed LikePatternTooComplex)"
      by (simp add: listMovies_def)
  qed
  have ok: "\<not> refused \<longrightarrow>
      (\<exists>res. resp (listMovies e q) = jsonResponse (MoviesJson res (length res)) 200
         \<and> sorted (map title res) \<and> set res \<subseteq> set (movies (DB e))
         \<and> (listing \<longrightarrow> res = take 50 (sort_key title (movies (DB e))) \<and>
               length res = min 50 (length (movies (DB e))))
         \<and> (\<not> listing \<longrightarrow> res = take 20 (sort_key title matching) \<and>
               length res = min 20 (length matching) \<and> set res \<subseteq> set matching \<and>
               (length matching \<le> 20 \<longrightarrow> set res = set matching)))"
  proof
    assume nr: "\<not> refused"
    show "\<exists>res. resp (listMovies e q) = jsonResponse (MoviesJson res (length res)) 200
         \<and> sorted (map title res) \<and> set res \<subseteq> set (movies (DB e))
         \<and> (listing \<longrightarrow> res = take 50 (sort_key title (movies (DB e))) \<and>
               length res = min 50 (length (movies (DB e))))
         \<and> (\<not> listing \<longrightarrow> res = take 20 (sort_key title matching) \<and>
               length res = min 20 (length matching) \<and> set res \<subseteq> set matching \<and>
               (length matching \<le> 20 \<longrightarrow> set res = set matching))"
    proof (cases listing)
      case True
      define res where "res = take 50 (sort_key title (movies (DB e)))"
      have s: "searchMovies (DB e) q = Inr res"
        using True unfolding listing_def res_def by (rule searchMovies_listing)
      have 1: "resp (listMovies e q) = jsonResponse (MoviesJson res (length res)) 200"
        by (simp add: listMovies_def s)
      have 2: "sorted (map title res)" unfolding res_def by (rule take_sorted_titles)
      have 3: "set res \<subseteq> set (movies (DB e))"
        using set_take_subset [of 50 "sort_key title (movies (DB e))"] by (simp add: res_def)
      have 4: "length res = min 50 (length (movies (DB e)))"
        by (simp add: res_def min.commute)
      show ?thesis using True 1 2 3 4 res_def by blast
    next
      case False
      define res where "res = take 20 (sort_key title matching)"
      have q: "q \<noteq> None" "q \<noteq> Some []" using False by (simp_all add: listing_def)
      have lim: "\<not> (movies (DB e) \<noteq> [] \<and> likeLimit < utf8Length (likePattern (the q)))"
        using nr False by (simp add: refused_def)
      have s: "searchMovies (DB e) q = Inr res"
        unfolding res_def matching_def using q lim by (rule searchMovies_query)
      have 1: "resp (listMovies e q) = jsonResponse (MoviesJson res (length res)) 200"
        by (simp add: listMovies_def s)
      have 2: "sorted (map title res)" unfolding res_def by (rule take_sorted_titles)
      have 5: "set res \<subseteq> set matching"
        using set_take_subset [of 20 "sort_key title matching"] by (simp add: res_def)
      have 3: "set res \<subseteq> set (movies (DB e))"
        using 5 by (auto simp: matching_def)
      have 4: "length res = min 20 (length matching)" by (simp add: res_def min.commute)
      have 6: "length matching \<le> 20 \<longrightarrow> set res = set matching" by (simp add: res_def)
      show ?thesis using False 1 2 3 4 5 6 res_def by blast
    qed
  qed
  have lk: "noWildcard qs \<longrightarrow> like (likePattern qs) t = containsFold qs t"
    using like_contains by blast
  have len: "likeLimit = 50 \<and> utf8Length (likePattern qs) = utf8Length qs + 2 \<and>
      (list_all (\<lambda>c. c < 128) qs \<longrightarrow> utf8Length qs = length qs)"
    by (simp add: likeLimit_def utf8Length_pattern utf8Length_ascii)
  show ?thesis
    unfolding Let_def fetch_movies listing_def [symmetric] refused_def [symmetric]
      matching_def [symmetric]
    using st ref ok lk len by blast
qed

lemma shaw_like: "like (likePattern (sq ''shaw'')) (title shawshank)"
  by (simp add: likePattern_def sq_def shawshank_def foldAscii_def)

lemma shaw_not_up: "\<not> like (likePattern (sq ''shaw'')) (title up)"
  by (simp add: likePattern_def sq_def up_def foldAscii_def)

lemma shaw_short: "\<not> likeLimit < utf8Length (likePattern (sq ''shaw''))"
  by (simp add: likeLimit_def utf8Length_def likePattern_def sq_def)

lemma longQuery_length: "utf8Length (likePattern longQuery) = 51"
  by (simp add: utf8Length_pattern utf8Length_ascii longQuery_def list_all_length)

lemma longQuery_not_empty: "longQuery \<noteq> []"
  by (simp add: longQuery_def)

lemma catalog_not_empty: "movies (DB demoEnv) \<noteq> []"
  by (simp add: demoEnv_def catalog_def)

theorem searchMovies_like_witness:
  "resp (fetch demoEnv 0 (getMovies (Some (sq ''shaw'')))) = jsonResponse (MoviesJson [shawshank] 1) 200
   \<and> containsFold (sq ''shaw'') (title shawshank)
   \<and> resp (fetch demoEnv 0 (getMovies (Some longQuery))) =
       internalError (QueryFailed LikePatternTooComplex)
   \<and> resp (fetch demoEnv 0 (getMovies None)) = jsonResponse (MoviesJson [shawshank, up] 2) 200"
proof -
  have nw: "noWildcard (sq ''shaw'')" by (simp add: noWildcard_def sq_def)
  have ne: "sq ''shaw'' \<noteq> []" by (simp add: sq_def)
  have m: "filter (\<lambda>m. like (likePattern (sq ''shaw'')) (title m)) (movies (DB demoEnv)) = [shawshank]"
    using shaw_like shaw_not_up by (simp add: demoEnv_def catalog_def)
  have t: "title shawshank \<le> title up"
    by (simp add: shawshank_def up_def sq_def)
  have c: "movies (DB demoEnv) = [shawshank, up]"
    by (simp add: demoEnv_def catalog_def)
  have 1: "resp (fetch demoEnv 0 (getMovies (Some (sq ''shaw'')))) =
      jsonResponse (MoviesJson [shawshank] 1) 200 \<and> containsFold (sq ''shaw'') (title shawshank)"
    using searchMovies_like [of demoEnv 0 "Some (sq ''shaw'')" None "sq ''shaw''" "title shawshank"]
      nw shaw_like shaw_short ne
    by (simp add: Let_def getMovies_def m)
  have 2: "resp (fetch demoEnv 0 (getMovies (Some longQuery))) =
      internalError (QueryFailed LikePatternTooComplex)"
    using searchMovies_like [of demoEnv 0 "Some longQuery" None "[]" "[]"]
      longQuery_not_empty catalog_not_empty
    by (simp add: Let_def getMovies_def longQuery_length likeLimit_def)
  have 3: "resp (fetch demoEnv 0 (getMovies None)) = jsonResponse (MoviesJson [shawshank, up] 2) 200"
    using searchMovies_like [of demoEnv 0 None None "[]" "[]"] t
    by (simp add: Let_def getMovies_def c likeLimit_def numeral_2_eq_2)
  show ?thesis using 1 2 3 by blast
qed

theorem searchMovies_like_counterexample:
  "resp (fetch demoEnv 0 (getMovies (Some [95]))) = jsonResponse (MoviesJson [shawshank, up] 2) 200
   \<and> \<not> containsFold [95] (title shawshank) \<and> \<not> containsFold [95] (title up)
   \<and> resp (fetch demoEnv 0 (getMovies (Some longQuery))) =
       internalError (QueryFailed LikePatternTooComplex)
   \<and> status (resp (fetch demoEnv 0 (getMovies (Some longQuery)))) = 500"
proof -
  have 1: "like (likePattern [95]) (title shawshank)"
    by (simp add: likePattern_def sq_def shawshank_def)
  have 2: "like (likePattern [95]) (title up)"
    by (simp add: likePattern_def sq_def up_def)
  have t: "title shawshank \<le> title up"
    by (simp add: shawshank_def up_def sq_def)
  have s: "\<not> likeLimit < utf8Length (likePattern [95])"
    by (simp add: likeLimit_def utf8Length_def likePattern_def)
  have res: "searchMovies (DB demoEnv) (Some [95]) = Inr [shawshank, up]"
    using 1 2 t s by (simp add: searchMovies_def demoEnv_def catalog_def)
  have 3: "\<not> containsFold [95] (title shawshank)"
    by (simp add: shawshank_def sq_def prefixFold_def foldAscii_def)
  have 4: "\<not> containsFold [95] (title up)"
    by (simp add: up_def sq_def prefixFold_def foldAscii_def)
  have 5: "resp (fetch demoEnv 0 (getMovies (Some [95]))) =
      jsonResponse (MoviesJson [shawshank, up] 2) 200"
    by (simp add: getMovies_def fetch_movies listMovies_def res numeral_2_eq_2)
  have long: "searchMovies (DB demoEnv) (Some longQuery) = Inl LikePatternTooComplex"
    using longQuery_not_empty catalog_not_empty
    by (simp add: searchMovies_def longQuery_length likeLimit_def)
  have 6: "resp (fetch demoEnv 0 (getMovies (Some longQuery))) =
      internalError (QueryFailed LikePatternTooComplex)"
    by (simp add: getMovies_def fetch_movies listMovies_def long)
  have 7: "status (resp (fetch demoEnv 0 (getMovies (Some longQuery)))) = 500"
    by (simp add: 6 internalError_def jsonResponse_def)
  show ?thesis using 3 4 5 6 7 by blast
qed

text \<open>
  C10. A response of \<open>GET /api/movies\<close> is a success (200) or the failure of the query
  (500). In every success response the \<open>count\<close> field is the number of entries of the
  \<open>movies\<close> array of that response, and the request without a query succeeds.
\<close>

theorem movies_count:
  "(let r = resp (fetch e now \<lparr>req_method = js ''GET'', req_path = js ''/api/movies'',
              req_q = q, req_body = b\<rparr>)
    in (\<forall>ms n. payload r = MoviesJson ms n \<longrightarrow> n = length ms)
     \<and> (status r = 200 \<longrightarrow> (\<exists>ms. r = \<lparr>status = 200, payload = MoviesJson ms (length ms)\<rparr>))
     \<and> (status r \<noteq> 200 \<longrightarrow> (\<exists>err. r = internalError (QueryFailed err)))
     \<and> (q = None \<longrightarrow> status r = 200))"
proof (cases "searchMovies (DB e) q")
  case (Inl err)
  then have q: "q \<noteq> None" by (auto simp: searchMovies_def split: option.splits)
  show ?thesis
    using q by (simp add: fetch_movies listMovies_def Inl internalError_def jsonResponse_def)
next
  case (Inr ms)
  show ?thesis
    by (simp add: fetch_movies listMovies_def Inr internalError_def jsonResponse_def)
qed

theorem movies_count_witness:
  "resp (fetch demoEnv 0 (getMovies None)) = \<lparr>status = 200, payload = MoviesJson [shawshank, up] 2\<rparr>
   \<and> (\<exists>ms. resp (fetch demoEnv 0 (getMovies None)) =
         \<lparr>status = 200, payload = MoviesJson ms (length ms)\<rparr>)"
proof -
  have t: "title shawshank \<le> title up"
    by (simp add: shawshank_def up_def sq_def)
  have s: "searchMovies (DB demoEnv) None = Inr [shawshank, up]"
    using t by (simp add: searchMovies_def demoEnv_def catalog_def)
  have 1: "resp (fetch demoEnv 0 (getMovies None)) =
      \<lparr>status = 200, payload = MoviesJson [shawshank, up] 2\<rparr>"
    by (simp add: getMovies_def fetch_movies listMovies_def s jsonResponse_def numeral_2_eq_2)
  have 2: "\<exists>ms. resp (fetch demoEnv 0 (getMovies None)) =
         \<lparr>status = 200, payload = MoviesJson ms (length ms)\<rparr>"
    using movies_count [of demoEnv 0 None None] by (simp add: Let_def getMovies_def)
  show ?thesis using 1 2 by blast
qed
end
